theory Spec2Isabelle
  imports Main "HOL-Library.Sublist"
begin

section \<open>Texts\<close>

text \<open>
  A Python \<open>str\<close> is modelled as a \<open>string\<close>: the list of its characters, a character
  being one byte of the text's UTF-8 encoding. The separators and tokens the program
  looks for are ASCII, so searching and splitting see the same occurrences on bytes as
  on code points. The goal and the texts the engine returns are texts the console can
  print: the goal is printed first thing by \<open>run\<close>, and a text that \<open>BaseAgent.think\<close>
  returns has been printed by it, inside its \<open>try\<close> statement (a reply that does not
  print makes \<open>think\<close> return \<open>None\<close>). The console is taken to encode every Unicode
  character, as UTF-8 does; the program's own messages need that. What the console
  cannot print is a lone surrogate, which a string read by \<open>ast.literal_eval\<close> can hold.
\<close>

text \<open>\<open>x or d\<close> on an optional text: \<open>None\<close> and the empty text are both falsy.\<close>

definition py_or :: "string option \<Rightarrow> string \<Rightarrow> string" where
  "py_or x d = (case x of None \<Rightarrow> d | Some t \<Rightarrow> if t = [] then d else t)"

text \<open>\<open>needle in hay\<close>.\<close>

fun str_contains :: "string \<Rightarrow> string \<Rightarrow> bool" where
  "str_contains needle [] = (needle = [])"
| "str_contains needle (c # cs) = (prefix needle (c # cs) \<or> str_contains needle cs)"

definition lower_letters :: string where
  "lower_letters = ''abcdefghijklmnopqrstuvwxyz''"

definition upper_letters :: string where
  "upper_letters = ''ABCDEFGHIJKLMNOPQRSTUVWXYZ''"

definition upper_char :: "char \<Rightarrow> char" where
  "upper_char c = (case map_of (zip lower_letters upper_letters) c of Some u \<Rightarrow> u | None \<Rightarrow> c)"

text \<open>
  \<open>t.upper()\<close>. It maps the characters of \<open>t\<close> one by one. On an ASCII character it is
  \<open>upper_char\<close>. What it makes of the other characters is left to the parameter \<open>up\<close>,
  which is given each maximal run of bytes from 128 on (such a run holds whole
  characters) and may return any text, ASCII letters included. \<open>run\<close> is the run being
  read, reversed.
\<close>

definition is_ascii :: "char \<Rightarrow> bool" where
  "is_ascii c = (\<not> digit7 c)"

fun upper_from :: "(string \<Rightarrow> string) \<Rightarrow> string \<Rightarrow> string \<Rightarrow> string" where
  "upper_from up run [] = (if run = [] then [] else up (rev run))"
| "upper_from up run (c # cs) =
     (if is_ascii c
      then (if run = [] then [] else up (rev run)) @ upper_char c # upper_from up [] cs
      else upper_from up (c # run) cs)"

definition str_upper :: "(string \<Rightarrow> string) \<Rightarrow> string \<Rightarrow> string" where
  "str_upper up t = upper_from up [] t"

text \<open>
  The characters \<open>str.strip()\<close> removes, below 128: tab, line feed, vertical tab, form
  feed, carriage return, the four separators \<open>0x1C\<close> .. \<open>0x1F\<close>, and the space. The white
  space characters from 128 on are not modelled; the stripped text goes to
  \<open>ast.literal_eval\<close> only.
\<close>

definition is_space :: "char \<Rightarrow> bool" where
  "is_space c = (c \<in> set [CHR 0x09, CHR 0x0A, CHR 0x0B, CHR 0x0C, CHR 0x0D,
                          CHR 0x1C, CHR 0x1D, CHR 0x1E, CHR 0x1F, CHR 0x20])"

definition str_strip :: "string \<Rightarrow> string" where
  "str_strip t = rev (dropWhile is_space (rev (dropWhile is_space t)))"

text \<open>
  The exceptions, all of them subclasses of \<open>Exception\<close>. \<open>UnicodeEncodeError\<close> is a
  subclass of \<open>ValueError\<close>.
\<close>

datatype exn = ValueError | UnicodeEncodeError | SyntaxError | IndexError | OtherException

text \<open>
  \<open>t.split(sep)\<close>: the pieces of \<open>t\<close> between the occurrences of \<open>sep\<close>, found from the
  left and not overlapping. \<open>acc\<close> is the piece being read, reversed. An empty separator
  raises \<open>ValueError\<close>.
\<close>

fun split_from :: "string \<Rightarrow> string \<Rightarrow> string \<Rightarrow> string list" where
  "split_from sep acc [] = [rev acc]"
| "split_from sep acc (c # cs) =
     (if prefix sep (c # cs) then rev acc # split_from sep [] (drop (length sep - 1) cs)
      else split_from sep (c # acc) cs)"

definition str_split :: "string \<Rightarrow> string \<Rightarrow> exn + string list" where
  "str_split sep t = (if sep = [] then Inl ValueError else Inr (split_from sep [] t))"

text \<open>\<open>xs[i]\<close> for an index that is not negative.\<close>

definition item :: "'a list \<Rightarrow> nat \<Rightarrow> exn + 'a" where
  "item xs i = (if i < length xs then Inr (xs ! i) else Inl IndexError)"

text \<open>\<open>sep.join(xs)\<close>.\<close>

fun str_join :: "string \<Rightarrow> string list \<Rightarrow> string" where
  "str_join sep [] = []"
| "str_join sep [x] = x"
| "str_join sep (x # y # ys) = x @ sep @ str_join sep (y # ys)"

text \<open>\<open>str(n)\<close> for a natural number.\<close>

fun show_nat :: "nat \<Rightarrow> string" where
  "show_nat n =
     (if n < 10 then [''0123456789'' ! n]
      else show_nat (n div 10) @ [''0123456789'' ! (n mod 10)])"

definition bind_exn :: "exn + 'a \<Rightarrow> ('a \<Rightarrow> exn + 'b) \<Rightarrow> exn + 'b" where
  "bind_exn m f = (case m of Inl e \<Rightarrow> Inl e | Inr x \<Rightarrow> f x)"

section \<open>Values read from the engine's reply\<close>

text \<open>
  The program looks at a value returned by \<open>ast.literal_eval\<close> in these ways only: whether
  it is a list, how many elements it has, and, for each element, what formatting it into
  a string (\<open>str()\<close>) and printing it do. A plan element is therefore one of
  \<^item> \<open>Str t\<close>: a Python \<open>str\<close> with the text \<open>t\<close>, which the console can print;
  \<^item> \<open>NonStr t\<close>: a value of another type, which \<open>str()\<close> renders to the text \<open>t\<close>
    (\<open>str()\<close> escapes what does not print, so \<open>t\<close> prints);
  \<^item> \<open>Unprintable t\<close>: a \<open>str\<close> that holds a lone surrogate, as the literal \<open>"\ud800"\<close>
    gives; it formats to its text (\<open>t\<close>, each surrogate in its three-byte form), but
    printing it raises \<open>UnicodeEncodeError\<close>;
  \<^item> \<open>Unformattable\<close>: a value for which \<open>str()\<close> raises \<open>ValueError\<close>: an integer with
    more digits than \<open>str()\<close> converts, or a container that holds one.
  A literal value is a list of such elements or something else.
\<close>

datatype step = Str string | NonStr string | Unprintable string | Unformattable

datatype pyval = PList "step list" | PNonList

text \<open>
  Formatting a step into an f-string or a prompt: \<open>formats st\<close> says that it yields a
  text, and \<open>render st\<close> is that text. Where \<open>formats\<close> fails the formatting raises
  \<open>ValueError\<close>, and the functions below do not come to use \<open>render\<close>.
\<close>

fun formats :: "step \<Rightarrow> bool" where
  "formats (Str t) = True"
| "formats (NonStr t) = True"
| "formats (Unprintable t) = True"
| "formats Unformattable = False"

fun render :: "step \<Rightarrow> string" where
  "render (Str t) = t"
| "render (NonStr t) = t"
| "render (Unprintable t) = t"
| "render Unformattable = []"

text \<open>Printing a text into which the step has been formatted succeeds.\<close>

fun prints :: "step \<Rightarrow> bool" where
  "prints (Str t) = True"
| "prints (NonStr t) = True"
| "prints (Unprintable t) = False"
| "prints Unformattable = False"

fun is_str :: "step \<Rightarrow> bool" where
  "is_str (Str t) = True"
| "is_str (NonStr t) = False"
| "is_str (Unprintable t) = True"
| "is_str Unformattable = False"

text \<open>
  \<open>ast.literal_eval\<close> and \<open>str.upper\<close> belong to the Python library. What they do beyond
  the part written out here is the parameter \<open>other\<close> of the functions below:
  \<^item> \<open>lit_other\<close>: the outcome of \<open>ast.literal_eval\<close> on a text that is not a flat list
    display of decimal integers and plain double-quoted strings (\<open>parse_flat_list\<close>); it
    may be any value or any exception;
  \<^item> \<open>upper_other\<close>: what \<open>str.upper\<close> makes of a run of characters outside ASCII.
\<close>

record library =
  lit_other :: "string \<Rightarrow> exn + pyval"
  upper_other :: "string \<Rightarrow> string"

definition trim :: "string \<Rightarrow> string" where
  "trim t = rev (dropWhile (\<lambda>c. c = CHR 0x20) (rev (dropWhile (\<lambda>c. c = CHR 0x20) t)))"

definition is_decimal :: "string \<Rightarrow> bool" where
  "is_decimal t =
     (t \<noteq> [] \<and> length t \<le> 18 \<and> list_all (\<lambda>c. c \<in> set ''0123456789'') t
      \<and> (hd t \<noteq> CHR ''0'' \<or> t = ''0''))"

definition plain_char :: "char \<Rightarrow> bool" where
  "plain_char c =
     (c \<in> set ''abcdefghijklmnopqrstuvwxyzABCDEFGHIJKLMNOPQRSTUVWXYZ0123456789 _-.:;!?()'')"

definition parse_item :: "string \<Rightarrow> step option" where
  "parse_item t =
     (if is_decimal t then Some (NonStr t)
      else if 2 \<le> length t \<and> hd t = CHR 0x22 \<and> last t = CHR 0x22
              \<and> list_all plain_char (butlast (tl t))
      then Some (Str (butlast (tl t)))
      else None)"

definition parse_flat_list :: "string \<Rightarrow> step list option" where
  "parse_flat_list t =
     (if 2 \<le> length t \<and> hd t = CHR ''['' \<and> last t = CHR '']''
      then (let body = trim (butlast (tl t))
            in if body = [] then Some []
               else those (map (\<lambda>p. parse_item (trim p)) (split_from '','' [] body)))
      else None)"

definition literal_eval :: "library \<Rightarrow> string \<Rightarrow> exn + pyval" where
  "literal_eval other t =
     (case parse_flat_list t of Some xs \<Rightarrow> Inr (PList xs) | None \<Rightarrow> lit_other other t)"

section \<open>The reasoning engine\<close>

text \<open>
  \<open>BaseAgent.think\<close> sends a request and returns the completion text, or \<open>None\<close> when the
  call, or the printing of the reply, fails. Within one run the engine is the sequence
  of these outcomes: \<open>eng n\<close> is what the call number \<open>n\<close> (from 0) returns. A request is recorded by the prompt template
  it fills and the texts formatted into the template; the transcript lists the requests
  of a run, each with its outcome, in the order they were made.
\<close>

type_synonym engine = "nat \<Rightarrow> string option"

datatype request =
    PlannerRequest string string string
  | ExecutorRequest string string string string
  | EvaluatorRequest string string string

type_synonym transcript = "(request \<times> string option) list"

definition think :: "engine \<Rightarrow> request \<Rightarrow> transcript \<Rightarrow> string option \<times> transcript" where
  "think eng req tr = (let r = eng (length tr) in (r, tr @ [(req, r)]))"

section \<open>Planner\<close>

text \<open>The body of the \<open>try\<close> block of \<open>Planner.plan\<close>.\<close>

definition plan_try :: "library \<Rightarrow> string \<Rightarrow> exn + step list" where
  "plan_try other response_text =
     bind_exn (str_split ''```python'' response_text) (\<lambda>parts.
     bind_exn (item parts 1) (\<lambda>after_tag.
     bind_exn (str_split ''```'' after_tag) (\<lambda>pieces.
     bind_exn (item pieces 0) (\<lambda>inside.
     bind_exn (literal_eval other (str_strip inside)) (\<lambda>v.
       Inr (case v of PList xs \<Rightarrow> xs | PNonList \<Rightarrow> []))))))"

text \<open>
  The \<open>try\<close> statement: both handlers return the empty list. The first one takes
  \<open>ValueError\<close> with its subclass, \<open>SyntaxError\<close> and \<open>IndexError\<close>.
\<close>

definition parse_plan :: "library \<Rightarrow> string \<Rightarrow> step list" where
  "parse_plan other response_text =
     (case plan_try other response_text of
        Inr p \<Rightarrow> p
      | Inl e \<Rightarrow>
          if e \<in> {ValueError, UnicodeEncodeError, SyntaxError, IndexError} then [] else [])"

definition Planner_plan ::
  "library \<Rightarrow> engine \<Rightarrow> string \<Rightarrow> string \<Rightarrow> string \<Rightarrow> transcript \<Rightarrow> step list \<times> transcript"
where
  "Planner_plan other eng question history_str failure_info tr =
     (let (r, tr') = think eng (PlannerRequest question history_str failure_info) tr;
          response_text = py_or r []
      in (parse_plan other response_text, tr'))"

section \<open>Evaluator\<close>

text \<open>The \<open>if\<close> chain of \<open>Evaluator.evaluate\<close>.\<close>

definition classify :: "library \<Rightarrow> string \<Rightarrow> string" where
  "classify other response_text =
     (if str_contains ''SUCCESS'' (str_upper (upper_other other) response_text)
      then ''SUCCESS''
      else if str_contains ''FAILURE_RETRY'' (str_upper (upper_other other) response_text)
      then ''FAILURE_RETRY''
      else ''FAILURE_REPLAN'')"

text \<open>
  \<open>Evaluator.evaluate\<close>. Formatting the prompt raises when the step does not format; then
  no request is made.
\<close>

definition evaluate ::
  "library \<Rightarrow> engine \<Rightarrow> string \<Rightarrow> step \<Rightarrow> string \<Rightarrow> transcript
     \<Rightarrow> exn + string \<times> transcript"
where
  "evaluate other eng question current_step result tr =
     (if \<not> formats current_step then Inl ValueError
      else (let (r, tr') = think eng (EvaluatorRequest question (render current_step) result) tr;
                response_text = py_or r ''FAILURE_REPLAN''
            in Inr (classify other response_text, tr')))"

section \<open>Orchestrator\<close>

definition MAX_REPLANS :: nat where
  "MAX_REPLANS = 3"

definition MAX_RETRIES :: nat where
  "MAX_RETRIES = 2"

text \<open>
  The literal texts of the source, as the bytes of their UTF-8 encoding: the marker for
  "none", the four texts \<open>run\<close> can return without a result, and the fixed parts of the
  formatted strings.
\<close>

definition txt_none :: string where
  "txt_none = [CHR 0xE6, CHR 0x97, CHR 0xA0]"

definition msg_no_initial_plan :: string where
  "msg_no_initial_plan =
     [CHR 0xE6, CHR 0x97, CHR 0xA0, CHR 0xE6, CHR 0xB3, CHR 0x95, CHR 0xE7, CHR 0x94, CHR 0x9F,
      CHR 0xE6, CHR 0x88, CHR 0x90, CHR 0xE5, CHR 0x88, CHR 0x9D, CHR 0xE5, CHR 0xA7, CHR 0x8B,
      CHR 0xE8, CHR 0xAE, CHR 0xA1, CHR 0xE5, CHR 0x88, CHR 0x92, CHR 0xE3, CHR 0x80, CHR 0x82]"

definition msg_replan_budget :: string where
  "msg_replan_budget =
     [CHR 0xE8, CHR 0xBE, CHR 0xBE, CHR 0xE5, CHR 0x88, CHR 0xB0, CHR 0xE6, CHR 0x9C, CHR 0x80,
      CHR 0xE5, CHR 0xA4, CHR 0xA7, CHR 0xE9, CHR 0x87, CHR 0x8D, CHR 0xE8, CHR 0xA7, CHR 0x84,
      CHR 0xE5, CHR 0x88, CHR 0x92, CHR 0xE6, CHR 0xAC, CHR 0xA1, CHR 0xE6, CHR 0x95, CHR 0xB0,
      CHR 0xEF, CHR 0xBC, CHR 0x8C, CHR 0xE4, CHR 0xBB, CHR 0xBB, CHR 0xE5, CHR 0x8A, CHR 0xA1,
      CHR 0xE5, CHR 0xA4, CHR 0xB1, CHR 0xE8, CHR 0xB4, CHR 0xA5, CHR 0xE3, CHR 0x80, CHR 0x82]"

definition msg_replan_failed :: string where
  "msg_replan_failed =
     [CHR 0xE9, CHR 0x87, CHR 0x8D, CHR 0xE8, CHR 0xA7, CHR 0x84, CHR 0xE5, CHR 0x88, CHR 0x92,
      CHR 0xE5, CHR 0xA4, CHR 0xB1, CHR 0xE8, CHR 0xB4, CHR 0xA5, CHR 0xEF, CHR 0xBC, CHR 0x8C,
      CHR 0xE6, CHR 0x97, CHR 0xA0, CHR 0xE6, CHR 0xB3, CHR 0x95, CHR 0xE7, CHR 0x94, CHR 0x9F,
      CHR 0xE6, CHR 0x88, CHR 0x90, CHR 0xE6, CHR 0x96, CHR 0xB0, CHR 0xE8, CHR 0xAE, CHR 0xA1,
      CHR 0xE5, CHR 0x88, CHR 0x92, CHR 0xE3, CHR 0x80, CHR 0x82]"

definition msg_nothing_done :: string where
  "msg_nothing_done =
     [CHR 0xE6, CHR 0x9C, CHR 0xAA, CHR 0xE8, CHR 0x83, CHR 0xBD, CHR 0xE5, CHR 0xAE, CHR 0x8C,
      CHR 0xE6, CHR 0x88, CHR 0x90, CHR 0xE4, CHR 0xBB, CHR 0xBB, CHR 0xE5, CHR 0x8A, CHR 0xA1]"

definition failure_head :: string where
  "failure_head =
     [CHR 0xE5, CHR 0x9C, CHR 0xA8, CHR 0xE6, CHR 0x89, CHR 0xA7, CHR 0xE8, CHR 0xA1, CHR 0x8C,
      CHR 0xE6, CHR 0xAD, CHR 0xA5, CHR 0xE9, CHR 0xAA, CHR 0xA4, CHR 0x20, CHR 0x27]"

definition failure_mid :: string where
  "failure_mid =
     [CHR 0x27, CHR 0x20, CHR 0xE6, CHR 0x97, CHR 0xB6, CHR 0xE5, CHR 0xA4, CHR 0xB1, CHR 0xE8,
      CHR 0xB4, CHR 0xA5, CHR 0xE3, CHR 0x80, CHR 0x82, CHR 0x0A, CHR 0xE6, CHR 0x89, CHR 0xA7,
      CHR 0xE8, CHR 0xA1, CHR 0x8C, CHR 0xE7, CHR 0xBB, CHR 0x93, CHR 0xE6, CHR 0x9E, CHR 0x9C,
      CHR 0x2F, CHR 0xE5, CHR 0x8E, CHR 0x9F, CHR 0xE5, CHR 0x9B, CHR 0xA0, CHR 0x3A, CHR 0x20]"

definition txt_step :: string where
  "txt_step = [CHR 0xE6, CHR 0xAD, CHR 0xA5, CHR 0xE9, CHR 0xAA, CHR 0xA4, CHR 0x3A, CHR 0x20]"

definition txt_result :: string where
  "txt_result = [CHR 0xE7, CHR 0xBB, CHR 0x93, CHR 0xE6, CHR 0x9E, CHR 0x9C, CHR 0x3A, CHR 0x20]"

text \<open>
  The failure context built at a replan, from the step and its latest result: the text
  of the f-string, for a step that formats.
\<close>

definition failure_info_of :: "step \<Rightarrow> string \<Rightarrow> string" where
  "failure_info_of current_step result = failure_head @ render current_step @ failure_mid @ result"

text \<open>
  The state of a run: the fields \<open>history\<close> and \<open>replan_count\<close> of the agent object, the
  local variables \<open>plan\<close>, \<open>step_index\<close> and \<open>retry_count\<close> of \<open>run\<close>, and the transcript of
  the engine calls made so far. A history entry is the pair of a step and its result.
\<close>

record run_state =
  plan :: "step list"
  step_index :: nat
  retry_count :: nat
  history :: "(step \<times> string) list"
  replan_count :: nat
  calls :: transcript

text \<open>
  The three texts \<open>_generate_plan\<close> and \<open>_execute_step\<close> format for their prompts, for
  steps that format.
\<close>

definition planner_history_str :: "(step \<times> string) list \<Rightarrow> string" where
  "planner_history_str h =
     (if h \<noteq> []
      then str_join [CHR 0x0A]
             (map (\<lambda>(st, res). ''- '' @ txt_step @ render st @ [CHR 0x0A] @ ''  ''
                                  @ txt_result @ res) h)
      else txt_none)"

definition executor_history_str :: "(step \<times> string) list \<Rightarrow> string" where
  "executor_history_str h =
     (if h \<noteq> []
      then str_join [CHR 0x0A]
             (map (\<lambda>(st, res). txt_step @ render st @ [CHR 0x0A] @ txt_result @ res) h)
      else txt_none)"

definition plan_str_of :: "step list \<Rightarrow> string" where
  "plan_str_of pl =
     str_join [CHR 0x0A] (map (\<lambda>(i, s). show_nat (i + 1) @ ''. '' @ render s) (enumerate 0 pl))"

text \<open>
  \<open>_generate_plan\<close>. Formatting the history raises when one of its steps does not format;
  then the planner is not called.
\<close>

definition generate_plan ::
  "library \<Rightarrow> engine \<Rightarrow> string \<Rightarrow> string \<Rightarrow> (step \<times> string) list \<Rightarrow> transcript
     \<Rightarrow> exn + step list \<times> transcript"
where
  "generate_plan other eng question failure_info h tr =
     (if \<not> list_all (\<lambda>(st, res). formats st) h then Inl ValueError
      else (let history_str = planner_history_str h
            in Inr (Planner_plan other eng question history_str failure_info tr)))"

text \<open>
  \<open>_execute_step\<close>. It formats the history, then every step of the plan, then the
  current step into the prompt; when one of them does not format, this raises and no
  request is made.
\<close>

definition execute_step ::
  "engine \<Rightarrow> string \<Rightarrow> step list \<Rightarrow> step \<Rightarrow> (step \<times> string) list \<Rightarrow> transcript
     \<Rightarrow> exn + string \<times> transcript"
where
  "execute_step eng question pl st h tr =
     (if \<not> list_all (\<lambda>(st', res). formats st') h then Inl ValueError
      else if \<not> list_all formats pl then Inl ValueError
      else if \<not> formats st then Inl ValueError
      else (let history_str = executor_history_str h;
                plan_str = plan_str_of pl;
                (r, tr') = think eng (ExecutorRequest question plan_str history_str (render st)) tr
            in Inr (py_or r [], tr')))"

text \<open>
  How a run ends: one constructor for each \<open>return\<close> of \<open>run\<close>, and \<open>Raised e\<close> for an
  exception \<open>e\<close> that leaves \<open>run\<close>, which has no handler; then no text is returned and
  the text that goes with the exit is empty. What one pass through the body of the
  \<open>while\<close> loop does: it leaves \<open>run\<close>, or it goes back to the loop test with a new state.
\<close>

datatype exit =
  No_initial_plan | Replan_budget_exhausted | Replan_failed | All_steps_done | Raised exn

datatype flow = Return exit string run_state | Continue run_state

text \<open>The block under \<open>if evaluation == "FAILURE_REPLAN"\<close>.\<close>

definition replan ::
  "library \<Rightarrow> engine \<Rightarrow> string \<Rightarrow> step \<Rightarrow> string \<Rightarrow> run_state \<Rightarrow> flow"
where
  "replan other eng question current_step result s =
     (let s1 = s\<lparr>replan_count := replan_count s + 1\<rparr>
      in if replan_count s1 > MAX_REPLANS
         then Return Replan_budget_exhausted msg_replan_budget s1
         else if \<not> formats current_step then Return (Raised ValueError) [] s1
         else (let failure_info = failure_info_of current_step result
               in case generate_plan other eng question failure_info (history s1) (calls s1) of
                    Inl e \<Rightarrow> Return (Raised e) [] s1
                  | Inr (pl, tr) \<Rightarrow>
                      (let s2 = s1\<lparr>plan := pl, calls := tr\<rparr>
                       in if pl = []
                          then Return Replan_failed msg_replan_failed s2
                          else Continue (s2\<lparr>step_index := 0, retry_count := 0\<rparr>))))"

text \<open>
  The statement that announces the current step, at the head of the loop body: it
  formats the step into a text and prints the text.
\<close>

definition announce :: "step \<Rightarrow> exn + unit" where
  "announce current_step =
     (if \<not> formats current_step then Inl ValueError
      else if \<not> prints current_step then Inl UnicodeEncodeError
      else Inr ())"

text \<open>
  The body of the \<open>while\<close> loop. An exception raised in it leaves \<open>run\<close>. The other
  \<open>print\<close> statements of the body print texts the engine returned, the verdict and
  numbers; they succeed. The first \<open>if\<close> statement yields the state, the verdict (which
  the retry branch may overwrite) and whether \<open>continue\<close> was executed.
\<close>

definition cycle :: "library \<Rightarrow> engine \<Rightarrow> string \<Rightarrow> run_state \<Rightarrow> flow" where
  "cycle other eng question s =
     (let current_step = plan s ! step_index s
      in case announce current_step of
           Inl e \<Rightarrow> Return (Raised e) [] s
         | Inr u \<Rightarrow>
      (case execute_step eng question (plan s) current_step (history s) (calls s) of
           Inl e \<Rightarrow> Return (Raised e) [] s
         | Inr (result, tr1) \<Rightarrow>
      (case evaluate other eng question current_step result tr1 of
           Inl e \<Rightarrow> Return (Raised e) [] (s\<lparr>calls := tr1\<rparr>)
         | Inr (evaluation, tr2) \<Rightarrow>
      (let s1 = s\<lparr>calls := tr2\<rparr>;
           (s2, evaluation', continue) =
             (if evaluation = ''SUCCESS''
              then (s1\<lparr>history := history s1 @ [(current_step, result)],
                        step_index := step_index s1 + 1,
                        retry_count := 0\<rparr>, evaluation, False)
              else if evaluation = ''FAILURE_RETRY''
              then (let s1' = s1\<lparr>retry_count := retry_count s1 + 1\<rparr>
                    in if retry_count s1' > MAX_RETRIES
                       then (s1', ''FAILURE_REPLAN'', False)
                       else (s1', evaluation, True))
              else (s1, evaluation, False))
       in if continue then Continue s2
          else if evaluation' = ''FAILURE_REPLAN''
          then replan other eng question current_step result s2
          else Continue s2))))"

text \<open>
  The \<open>while\<close> loop with what follows it. The loop is not known to end before it is
  proved to: a run that never ends has the value \<open>None\<close>.
\<close>

partial_function (option) loop ::
  "library \<Rightarrow> engine \<Rightarrow> string \<Rightarrow> run_state \<Rightarrow> (exit \<times> string \<times> run_state) option"
where
  "loop other eng question s =
     (if step_index s < length (plan s)
      then (case cycle other eng question s of
              Return e msg s' \<Rightarrow> Some (e, msg, s')
            | Continue s' \<Rightarrow> loop other eng question s')
      else Some (All_steps_done,
                 (if history s \<noteq> [] then snd (last (history s)) else msg_nothing_done),
                 s))"

text \<open>
  \<open>run\<close>, on an agent object in the state \<open>self\<close> (what an earlier run left in its fields).
  The transcript of the run starts empty.
\<close>

definition run ::
  "library \<Rightarrow> engine \<Rightarrow> string \<Rightarrow> run_state \<Rightarrow> (exit \<times> string \<times> run_state) option"
where
  "run other eng question self =
     (let s0 = self\<lparr>history := [], replan_count := 0, calls := []\<rparr>
      in case generate_plan other eng question txt_none (history s0) (calls s0) of
           Inl e \<Rightarrow> Some (Raised e, [], s0)
         | Inr (pl, tr) \<Rightarrow>
             (let s1 = s0\<lparr>plan := pl, calls := tr\<rparr>
              in if pl = []
                 then Some (No_initial_plan, msg_no_initial_plan, s1)
                 else loop other eng question (s1\<lparr>step_index := 0, retry_count := 0\<rparr>)))"

section \<open>What a pass through the loop observes\<close>

text \<open>
  The values the loop body computes at a state, named so that properties of a pass can be
  stated: the current step, the result and the verdict of the pass, the transcript after
  the execution and after the evaluation, and the plan a replan would obtain. A pass
  that raises before it has the result has the empty text for its result, and one that
  raises before it has the verdict has the empty text for its verdict.
\<close>

definition current_step_at :: "run_state \<Rightarrow> step" where
  "current_step_at s = plan s ! step_index s"

text \<open>The execution of the pass: the announcement, then \<open>_execute_step\<close>.\<close>

definition execution_at :: "engine \<Rightarrow> string \<Rightarrow> run_state \<Rightarrow> exn + string \<times> transcript" where
  "execution_at eng question s =
     bind_exn (announce (current_step_at s)) (\<lambda>u.
       execute_step eng question (plan s) (current_step_at s) (history s) (calls s))"

definition result_at :: "engine \<Rightarrow> string \<Rightarrow> run_state \<Rightarrow> string" where
  "result_at eng question s =
     (case execution_at eng question s of Inl e \<Rightarrow> [] | Inr (result, tr1) \<Rightarrow> result)"

definition after_execute :: "engine \<Rightarrow> string \<Rightarrow> run_state \<Rightarrow> transcript" where
  "after_execute eng question s =
     (case execution_at eng question s of Inl e \<Rightarrow> calls s | Inr (result, tr1) \<Rightarrow> tr1)"

text \<open>The evaluation of the pass.\<close>

definition evaluation_at ::
  "library \<Rightarrow> engine \<Rightarrow> string \<Rightarrow> run_state \<Rightarrow> exn + string \<times> transcript"
where
  "evaluation_at other eng question s =
     bind_exn (execution_at eng question s) (\<lambda>(result, tr1).
       evaluate other eng question (current_step_at s) result tr1)"

definition verdict_at :: "library \<Rightarrow> engine \<Rightarrow> string \<Rightarrow> run_state \<Rightarrow> string" where
  "verdict_at other eng question s =
     (case evaluation_at other eng question s of
        Inl e \<Rightarrow> [] | Inr (evaluation, tr2) \<Rightarrow> evaluation)"

definition after_evaluate :: "library \<Rightarrow> engine \<Rightarrow> string \<Rightarrow> run_state \<Rightarrow> transcript" where
  "after_evaluate other eng question s =
     (case evaluation_at other eng question s of
        Inl e \<Rightarrow> after_execute eng question s | Inr (evaluation, tr2) \<Rightarrow> tr2)"

text \<open>
  The pass gets as far as its verdict: the current step formats and prints, and the
  history and the plan format.
\<close>

definition proceeds :: "run_state \<Rightarrow> bool" where
  "proceeds s =
     (formats (current_step_at s) \<and> prints (current_step_at s)
      \<and> list_all (\<lambda>(st, res). formats st) (history s) \<and> list_all formats (plan s))"

text \<open>A retry verdict is escalated when the incremented retry counter exceeds the bound.\<close>

definition escalated :: "library \<Rightarrow> engine \<Rightarrow> string \<Rightarrow> run_state \<Rightarrow> bool" where
  "escalated other eng question s =
     (verdict_at other eng question s = ''FAILURE_RETRY'' \<and> retry_count s + 1 > MAX_RETRIES)"

text \<open>The pass makes a replan transition: the verdict is a replan, direct or escalated.\<close>

definition replans :: "library \<Rightarrow> engine \<Rightarrow> string \<Rightarrow> run_state \<Rightarrow> bool" where
  "replans other eng question s =
     (verdict_at other eng question s = ''FAILURE_REPLAN'' \<or> escalated other eng question s)"

definition new_plan_at :: "library \<Rightarrow> engine \<Rightarrow> string \<Rightarrow> run_state \<Rightarrow> step list" where
  "new_plan_at other eng question s =
     (case generate_plan other eng question
             (failure_info_of (current_step_at s) (result_at eng question s))
             (history s) (after_evaluate other eng question s) of
        Inl e \<Rightarrow> [] | Inr (pl, tr) \<Rightarrow> pl)"

fun flow_state :: "flow \<Rightarrow> run_state" where
  "flow_state (Return e msg s) = s"
| "flow_state (Continue s) = s"

text \<open>The state \<open>run\<close> enters the loop with.\<close>

definition initial_state :: "library \<Rightarrow> engine \<Rightarrow> string \<Rightarrow> run_state \<Rightarrow> run_state" where
  "initial_state other eng question self =
     (let s0 = self\<lparr>history := [], replan_count := 0, calls := []\<rparr>
      in case generate_plan other eng question txt_none (history s0) (calls s0) of
           Inl e \<Rightarrow> s0
         | Inr (pl, tr) \<Rightarrow> s0\<lparr>plan := pl, calls := tr, step_index := 0, retry_count := 0\<rparr>)"

text \<open>
  \<open>reaches other eng question s s'\<close>: the loop, at its test in state \<open>s\<close>, comes back to
  its test in state \<open>s'\<close> after some number of passes.
\<close>

inductive reaches :: "library \<Rightarrow> engine \<Rightarrow> string \<Rightarrow> run_state \<Rightarrow> run_state \<Rightarrow> bool"
  for other :: library and eng :: engine and question :: string
where
  reaches_refl: "reaches other eng question s s"
| reaches_step:
    "reaches other eng question s s' \<Longrightarrow> step_index s' < length (plan s')
       \<Longrightarrow> cycle other eng question s' = Continue s''
       \<Longrightarrow> reaches other eng question s s''"

text \<open>
  The successful evaluations a transcript records, oldest first: for each evaluator
  request whose outcome classifies as SUCCESS, the step and the result it was asked
  about.
\<close>

fun success_of :: "library \<Rightarrow> request \<times> string option \<Rightarrow> (string \<times> string) list" where
  "success_of other (EvaluatorRequest question st res, r) =
     (if classify other (py_or r ''FAILURE_REPLAN'') = ''SUCCESS'' then [(st, res)] else [])"
| "success_of other (PlannerRequest question h f, r) = []"
| "success_of other (ExecutorRequest question p h st, r) = []"

definition successes :: "library \<Rightarrow> transcript \<Rightarrow> (string \<times> string) list" where
  "successes other tr = concat (map (success_of other) tr)"

text \<open>The kind of a request: which component made it, and for which step.\<close>

datatype kind = Plans | Executes string | Evaluates string

fun kind_of :: "request \<times> string option \<Rightarrow> kind" where
  "kind_of (PlannerRequest question h f, r) = Plans"
| "kind_of (ExecutorRequest question p h st, r) = Executes st"
| "kind_of (EvaluatorRequest question st res, r) = Evaluates st"

section \<open>The evaluator's classification, in the words of the specification\<close>

text \<open>
  \<open>occurs needle hay\<close>: \<open>needle\<close> stands at some position of \<open>hay\<close>.
\<close>

definition occurs :: "string \<Rightarrow> string \<Rightarrow> bool" where
  "occurs needle hay = (\<exists>i \<in> {0..length hay}. take (length needle) (drop i hay) = needle)"

text \<open>
  For a text of ASCII characters, ignoring case is a matter of single letters. Two
  characters are the same letter when they are equal or differ only in case.
  \<open>contains_ci needle hay\<close>: at some position of \<open>hay\<close> stands a text of the length of
  \<open>needle\<close> that agrees with \<open>needle\<close> letter by letter, case ignored.
\<close>

definition same_letter :: "char \<Rightarrow> char \<Rightarrow> bool" where
  "same_letter c d =
     (c = d \<or> (c, d) \<in> set (zip lower_letters upper_letters)
            \<or> (d, c) \<in> set (zip lower_letters upper_letters))"

definition contains_ci :: "string \<Rightarrow> string \<Rightarrow> bool" where
  "contains_ci needle hay =
     (\<exists>i \<in> {0..length hay}.
        length (take (length needle) (drop i hay)) = length needle
        \<and> list_all2 same_letter (take (length needle) (drop i hay)) needle)"

text \<open>
  The verdict for an engine outcome, read off the text with its case removed (the text
  in upper case): SUCCESS if that text contains it, else FAILURE_RETRY if that text
  contains it, else FAILURE_REPLAN, which is also the verdict when the engine is
  unavailable.
\<close>

definition verdict_spec :: "library \<Rightarrow> string option \<Rightarrow> string" where
  "verdict_spec other r =
     (case r of
        None \<Rightarrow> ''FAILURE_REPLAN''
      | Some t \<Rightarrow>
          if occurs ''SUCCESS'' (str_upper (upper_other other) t) then ''SUCCESS''
          else if occurs ''FAILURE_RETRY'' (str_upper (upper_other other) t)
          then ''FAILURE_RETRY''
          else ''FAILURE_REPLAN'')"

section \<open>Example inputs\<close>

text \<open>
  Replies of the engine to the planner: a tagged block with two steps, with one step,
  with two integers; a block with two steps whose fence has no tag; a block with one
  step whose fence has no tag, followed by a tagged block with another step; and a
  tagged block whose only step is the string literal \<open>"\ud800"\<close>, a lone surrogate.
\<close>

definition dq :: string where
  "dq = [CHR 0x22]"

definition reply_two_steps :: string where
  "reply_two_steps =
     ''```python'' @ [CHR 0x0A] @ ''['' @ dq @ ''a'' @ dq @ '', '' @ dq @ ''b'' @ dq @ '']''
       @ [CHR 0x0A] @ ''```''"

definition reply_one_step :: string where
  "reply_one_step = ''```python'' @ [CHR 0x0A] @ ''['' @ dq @ ''a'' @ dq @ '']'' @ [CHR 0x0A] @ ''```''"

definition reply_integers :: string where
  "reply_integers = ''```python'' @ [CHR 0x0A] @ ''[1, 2]'' @ [CHR 0x0A] @ ''```''"

definition reply_bare_fence :: string where
  "reply_bare_fence =
     ''```'' @ [CHR 0x0A] @ ''['' @ dq @ ''a'' @ dq @ '', '' @ dq @ ''b'' @ dq @ '']''
       @ [CHR 0x0A] @ ''```''"

definition reply_two_blocks :: string where
  "reply_two_blocks =
     ''```'' @ [CHR 0x0A] @ ''['' @ dq @ ''x'' @ dq @ '']'' @ [CHR 0x0A] @ ''```''
       @ [CHR 0x0A] @ ''```python'' @ [CHR 0x0A] @ ''['' @ dq @ ''a'' @ dq @ '']''
       @ [CHR 0x0A] @ ''```''"

definition surrogate_literal :: string where
  "surrogate_literal = ''['' @ dq @ [CHR 0x5C] @ ''ud800'' @ dq @ '']''"

definition reply_surrogate :: string where
  "reply_surrogate = ''```python'' @ [CHR 0x0A] @ surrogate_literal @ [CHR 0x0A] @ ''```''"

text \<open>
  A library that rejects every text left to \<open>ast.literal_eval\<close> and leaves the characters
  outside ASCII as they are; and one that differs from it on the list with the lone
  surrogate, which \<open>ast.literal_eval\<close> reads as a list of one string.
\<close>

definition rejecting :: library where
  "rejecting = \<lparr>lit_other = (\<lambda>t. Inl SyntaxError), upper_other = (\<lambda>r. r)\<rparr>"


text \<open>
  A library whose \<open>str.upper\<close> maps the long s (\<open>U+017F\<close>, the bytes \<open>C5 BF\<close>) to \<open>S\<close>, as
  Python's does.
\<close>

definition long_s :: string where
  "long_s = [CHR 0xC5, CHR 0xBF]"

definition upper_long_s :: library where
  "upper_long_s =
     \<lparr>lit_other = (\<lambda>t. Inl SyntaxError), upper_other = (\<lambda>r. if r = long_s then ''S'' else r)\<rparr>"

text \<open>An engine that answers from a list of replies and is unavailable after them.\<close>

definition scripted :: "string list \<Rightarrow> engine" where
  "scripted replies n = (if n < length replies then Some (replies ! n) else None)"

text \<open>An agent object that an earlier run has used.\<close>

definition used_agent :: run_state where
  "used_agent =
     \<lparr>plan = [], step_index = 0, retry_count = 0, history = [(Str ''old'', ''text'')],
      replan_count = 2, calls = []\<rparr>"

text \<open>
  The script of the example run: a plan of two steps; the first step succeeds; the
  second is judged FAILURE_RETRY three times; the plan that follows has one step, which
  succeeds.
\<close>

definition retry_engine :: engine where
  "retry_engine =
     scripted [reply_two_steps, ''r1'', ''SUCCESS'', ''x'', ''FAILURE_RETRY'', ''y'',
               ''FAILURE_RETRY'', ''z'', ''FAILURE_RETRY'', reply_one_step, ''w'', ''SUCCESS'']"

section \<open>Whole runs\<close>

text \<open>The state one pass through the loop body leaves.\<close>

definition pass :: "library \<Rightarrow> engine \<Rightarrow> string \<Rightarrow> run_state \<Rightarrow> run_state" where
  "pass other eng question s = flow_state (cycle other eng question s)"

text \<open>
  What the loop has left to spend: replans before the budget is exceeded, steps of the
  active plan, retries of the current step. Every pass that goes back to the loop test
  makes this triple smaller in the lexicographic order.
\<close>

definition loop_rank :: "run_state \<Rightarrow> nat \<times> nat \<times> nat" where
  "loop_rank s =
     (MAX_REPLANS + 1 - replan_count s, length (plan s) - step_index s,
      MAX_RETRIES + 1 - retry_count s)"

text \<open>The final state and the transcript of a run.\<close>

definition run_final :: "library \<Rightarrow> engine \<Rightarrow> string \<Rightarrow> run_state \<Rightarrow> run_state" where
  "run_final other eng question self =
     (case run other eng question self of None \<Rightarrow> self | Some (e, a, sf) \<Rightarrow> sf)"

definition run_calls :: "library \<Rightarrow> engine \<Rightarrow> string \<Rightarrow> run_state \<Rightarrow> transcript" where
  "run_calls other eng question self =
     (case run other eng question self of None \<Rightarrow> [] | Some (e, a, sf) \<Rightarrow> calls sf)"

text \<open>A history entry as a prompt shows it, and a transcript entry without its prompt.\<close>

fun rendered :: "step \<times> string \<Rightarrow> string \<times> string" where
  "rendered (st, res) = (render st, res)"

fun outline :: "request \<times> string option \<Rightarrow> kind \<times> string option" where
  "outline (req, r) = (kind_of (req, r), r)"

text \<open>
  States of the example run at the loop test: at the start, before the first execution
  of the second step, and before its third execution.
\<close>

definition first_state :: run_state where
  "first_state = initial_state rejecting retry_engine ''goal'' used_agent"

definition retry_state :: run_state where
  "retry_state = pass rejecting retry_engine ''goal'' first_state"

definition exhausted_state :: run_state where
  "exhausted_state =
     pass rejecting retry_engine ''goal'' (pass rejecting retry_engine ''goal'' retry_state)"

section \<open>Calls to the engine\<close>

lemma think_eq: "think eng req tr = (eng (length tr), tr @ [(req, eng (length tr))])"
  by (simp add: think_def Let_def)

lemma execute_step_eq:
  "execute_step eng question pl st h tr =
     (if list_all (\<lambda>(st', res). formats st') h \<and> list_all formats pl \<and> formats st
      then Inr (py_or (eng (length tr)) [],
                tr @ [(ExecutorRequest question (plan_str_of pl) (executor_history_str h)
                         (render st), eng (length tr))])
      else Inl ValueError)"
  by (simp add: execute_step_def think_eq)

lemma evaluate_eq:
  "evaluate other eng question st res tr =
     (if formats st
      then Inr (classify other (py_or (eng (length tr)) ''FAILURE_REPLAN''),
                tr @ [(EvaluatorRequest question (render st) res, eng (length tr))])
      else Inl ValueError)"
  by (simp add: evaluate_def think_eq)

lemma generate_plan_eq:
  "generate_plan other eng question fi h tr =
     (if list_all (\<lambda>(st, res). formats st) h
      then Inr (parse_plan other (py_or (eng (length tr)) []),
                tr @ [(PlannerRequest question (planner_history_str h) fi, eng (length tr))])
      else Inl ValueError)"
  by (simp add: generate_plan_def Planner_plan_def think_eq)

lemma classify_range:
  "classify other t = ''SUCCESS'' \<or> classify other t = ''FAILURE_RETRY''
   \<or> classify other t = ''FAILURE_REPLAN''"
  by (simp add: classify_def)

lemma split_from_absent:
  "\<not> str_contains sep t \<Longrightarrow> split_from sep acc t = [rev acc @ t]"
  by (induction t arbitrary: acc) auto

section \<open>Step executor\<close>

text \<open>
  Claim C7. \<open>_execute_step\<close> makes exactly one engine request: the transcript grows by
  one entry, the executor prompt for the step. It returns the engine's text as it is,
  and the empty text when the engine yields nothing; it does so in one pass, with no
  retry, also when the request fails. This holds whenever the history, the plan and the
  step can be formatted into the prompt, as all strings can; otherwise the call raises
  \<open>ValueError\<close> before any request.
\<close>

theorem execute_step_one_request:
  "execute_step eng question pl st h tr =
     (if list_all (\<lambda>(st', res). formats st') h \<and> list_all formats pl \<and> formats st
      then Inr ((case eng (length tr) of None \<Rightarrow> [] | Some t \<Rightarrow> t),
                tr @ [(ExecutorRequest question (plan_str_of pl) (executor_history_str h)
                         (render st), eng (length tr))])
      else Inl ValueError)"
  by (simp add: execute_step_eq py_or_def split: option.splits)

text \<open>
  A call with an engine that answers and a call with an engine that is unavailable, the
  transcript holding one request before the call.
\<close>

theorem execute_step_one_request_witness:
  "list_all (\<lambda>(st', res). formats st') [(Str ''a'', ''r1'')]
   \<and> list_all formats [Str ''a'', Str ''b''] \<and> formats (Str ''b'')
   \<and> execute_step (scripted [''p'', ''x'']) ''goal'' [Str ''a'', Str ''b''] (Str ''b'')
        [(Str ''a'', ''r1'')] [(PlannerRequest ''goal'' txt_none txt_none, Some ''p'')]
       = Inr (''x'',
              [(PlannerRequest ''goal'' txt_none txt_none, Some ''p''),
               (ExecutorRequest ''goal'' (plan_str_of [Str ''a'', Str ''b''])
                  (executor_history_str [(Str ''a'', ''r1'')]) ''b'', Some ''x'')])
   \<and> execute_step (scripted [''p'']) ''goal'' [Str ''a'', Str ''b''] (Str ''b'')
        [(Str ''a'', ''r1'')] [(PlannerRequest ''goal'' txt_none txt_none, Some ''p'')]
       = Inr ('''',
              [(PlannerRequest ''goal'' txt_none txt_none, Some ''p''),
               (ExecutorRequest ''goal'' (plan_str_of [Str ''a'', Str ''b''])
                  (executor_history_str [(Str ''a'', ''r1'')]) ''b'', None)])"
  using execute_step_one_request [of "scripted [''p'', ''x'']" "''goal''" "[Str ''a'', Str ''b'']"
      "Str ''b''" "[(Str ''a'', ''r1'')]" "[(PlannerRequest ''goal'' txt_none txt_none, Some ''p'')]"]
    execute_step_one_request [of "scripted [''p'']" "''goal''" "[Str ''a'', Str ''b'']"
      "Str ''b''" "[(Str ''a'', ''r1'')]" "[(PlannerRequest ''goal'' txt_none txt_none, Some ''p'')]"]
  by (simp add: scripted_def)

section \<open>Planner: facts\<close>

lemma plan_try_absent:
  assumes "\<not> str_contains ''```python'' t"
  shows "plan_try other t = Inl IndexError"
  using assms by (simp add: plan_try_def str_split_def bind_exn_def item_def split_from_absent)

lemma parse_plan_absent:
  "\<not> str_contains ''```python'' t \<Longrightarrow> parse_plan other t = []"
  by (simp add: parse_plan_def plan_try_absent)

lemma bare_fence_no_tag: "\<not> str_contains ''```python'' reply_bare_fence"
  by (simp add: reply_bare_fence_def dq_def)

lemma literal_two_steps:
  "literal_eval other (''['' @ dq @ ''a'' @ dq @ '', '' @ dq @ ''b'' @ dq @ '']'')
     = Inr (PList [Str ''a'', Str ''b''])"
  by (simp add: literal_eval_def parse_flat_list_def trim_def parse_item_def is_decimal_def
      plain_char_def dq_def)

lemma literal_one_step:
  "literal_eval other (''['' @ dq @ ''x'' @ dq @ '']'') = Inr (PList [Str ''x''])"
  by (simp add: literal_eval_def parse_flat_list_def trim_def parse_item_def is_decimal_def
      plain_char_def dq_def)

lemma parse_plan_integers: "parse_plan other reply_integers = [NonStr ''1'', NonStr ''2'']"
  by (simp add: reply_integers_def parse_plan_def plan_try_def bind_exn_def str_split_def item_def
      str_strip_def is_space_def literal_eval_def parse_flat_list_def trim_def parse_item_def
      is_decimal_def)

lemma parse_plan_two_blocks: "parse_plan other reply_two_blocks = [Str ''a'']"
  by (simp add: reply_two_blocks_def dq_def parse_plan_def plan_try_def bind_exn_def
      str_split_def item_def str_strip_def is_space_def literal_eval_def parse_flat_list_def
      trim_def parse_item_def is_decimal_def plain_char_def)


text \<open>
  Claim C10, as stated, fails on the reply \<open>reply_two_blocks\<close>. The reply starts with a
  block opened by a bare fence; the text between its fences is a list for
  \<open>ast.literal_eval\<close>. A tagged block follows, and \<open>Planner.plan\<close> returns the list of
  that block, which is not empty.
\<close>

theorem tagged_block_after_bare_fence:
  "reply_two_blocks
     = ''```'' @ [CHR 0x0A] @ (''['' @ dq @ ''x'' @ dq @ '']'') @ [CHR 0x0A] @ ''```''
       @ drop 13 reply_two_blocks
   \<and> literal_eval rejecting (''['' @ dq @ ''x'' @ dq @ '']'') = Inr (PList [Str ''x''])
   \<and> fst (Planner_plan rejecting (scripted [reply_two_blocks]) ''goal'' txt_none txt_none [])
       = [Str ''a'']
   \<and> [Str ''a''] \<noteq> []"
proof -
  have r: "py_or (Some reply_two_blocks) [] = reply_two_blocks"
    by (simp add: py_or_def reply_two_blocks_def)
  have a: "reply_two_blocks
     = ''```'' @ [CHR 0x0A] @ (''['' @ dq @ ''x'' @ dq @ '']'') @ [CHR 0x0A] @ ''```''
       @ drop 13 reply_two_blocks"
    by (simp add: reply_two_blocks_def dq_def)
  have b: "fst (Planner_plan rejecting (scripted [reply_two_blocks]) ''goal'' txt_none txt_none [])
       = [Str ''a'']"
    by (simp add: Planner_plan_def think_eq scripted_def parse_plan_two_blocks r)
  from a b literal_one_step [of rejecting] show ?thesis by blast
qed

text \<open>
  Claim C10, amended. \<open>Planner.plan\<close> finds the block by the tag \<open>```python\<close> only: when
  the engine's reply does not contain this tag anywhere, as when every block in it is
  opened by a bare fence, the plan is empty, whatever the blocks hold.
\<close>

theorem plan_needs_python_tag:
  assumes "eng (length tr) = Some reply" and "\<not> str_contains ''```python'' reply"
  shows "fst (Planner_plan other eng question history_str failure_info tr) = []"
proof -
  have "\<not> str_contains ''```python'' (py_or (Some reply) [])"
    using assms(2) by (simp add: py_or_def)
  then show ?thesis
    using assms(1) by (simp add: Planner_plan_def think_eq parse_plan_absent)
qed

text \<open>
  The reply \<open>reply_bare_fence\<close> holds the list of two steps between bare fences; the
  text between the fences is a list for \<open>ast.literal_eval\<close>, and the plan is empty.
\<close>

theorem plan_needs_python_tag_witness:
  "scripted [reply_bare_fence] (length ([]::transcript)) = Some reply_bare_fence
   \<and> \<not> str_contains ''```python'' reply_bare_fence
   \<and> literal_eval rejecting (''['' @ dq @ ''a'' @ dq @ '', '' @ dq @ ''b'' @ dq @ '']'')
       = Inr (PList [Str ''a'', Str ''b''])
   \<and> fst (Planner_plan rejecting (scripted [reply_bare_fence]) ''goal'' txt_none txt_none []) = []"
  using plan_needs_python_tag [where eng = "scripted [reply_bare_fence]" and tr = "[]"
      and reply = reply_bare_fence and other = rejecting and question = "''goal''"
      and history_str = txt_none and failure_info = txt_none]
    bare_fence_no_tag literal_two_steps [of rejecting]
  by (simp add: scripted_def)

text \<open>
  Claim C2, at the reply \<open>reply_integers\<close>, a tagged block holding \<open>[1, 2]\<close>:
  \<open>Planner.plan\<close> returns the list of the two integers. The plan is not empty and none
  of its elements is a string.
\<close>

theorem plan_of_integers:
  "fst (Planner_plan other (scripted [reply_integers]) ''goal'' txt_none txt_none [])
     = [NonStr ''1'', NonStr ''2'']
   \<and> \<not> list_all is_str [NonStr ''1'', NonStr ''2'']"
proof -
  have "py_or (Some reply_integers) [] = reply_integers"
    by (simp add: py_or_def reply_integers_def)
  then show ?thesis
    by (simp add: Planner_plan_def think_eq scripted_def parse_plan_integers)
qed

section \<open>Evaluator\<close>

lemma str_contains_iff: "str_contains n h \<longleftrightarrow> occurs n h"
  unfolding occurs_def
proof (induction h)
  case Nil
  then show ?case by auto
next
  case (Cons c cs)
  have p: "prefix n (c # cs) \<longleftrightarrow> take (length n) (c # cs) = n"
    by (metis prefix_def append_eq_conv_conj append_take_drop_id)
  have "(\<exists>i \<in> {0..length (c # cs)}. take (length n) (drop i (c # cs)) = n)
        \<longleftrightarrow> take (length n) (c # cs) = n \<or> (\<exists>j \<in> {0..length cs}. take (length n) (drop j cs) = n)"
  proof
    assume "\<exists>i \<in> {0..length (c # cs)}. take (length n) (drop i (c # cs)) = n"
    then obtain i where i: "i \<le> length (c # cs)" "take (length n) (drop i (c # cs)) = n" by auto
    show "take (length n) (c # cs) = n \<or> (\<exists>j \<in> {0..length cs}. take (length n) (drop j cs) = n)"
    proof (cases i)
      case 0
      with i show ?thesis by simp
    next
      case (Suc j)
      with i have "j \<le> length cs" "take (length n) (drop j cs) = n" by auto
      then show ?thesis by auto
    qed
  next
    assume "take (length n) (c # cs) = n \<or> (\<exists>j \<in> {0..length cs}. take (length n) (drop j cs) = n)"
    then show "\<exists>i \<in> {0..length (c # cs)}. take (length n) (drop i (c # cs)) = n"
    proof
      assume "take (length n) (c # cs) = n"
      then have "take (length n) (drop 0 (c # cs)) = n" by simp
      then show ?thesis by (metis atLeastAtMost_iff le0)
    next
      assume "\<exists>j \<in> {0..length cs}. take (length n) (drop j cs) = n"
      then obtain j where "j \<le> length cs" "take (length n) (drop j cs) = n" by auto
      then have "Suc j \<in> {0..length (c # cs)}" "take (length n) (drop (Suc j) (c # cs)) = n" by auto
      then show ?thesis by blast
    qed
  qed
  with Cons p show ?case by simp
qed

lemma upper_from_ascii: "list_all is_ascii t \<Longrightarrow> upper_from up [] t = map upper_char t"
  by (induction t) auto

lemma str_upper_ascii: "list_all is_ascii t \<Longrightarrow> str_upper up t = map upper_char t"
  by (simp add: str_upper_def upper_from_ascii)

lemma map_upper_iff:
  "\<forall>d \<in> set n. \<forall>c. (upper_char c = d) = same_letter c d \<Longrightarrow>
     map upper_char w = n \<longleftrightarrow> length w = length n \<and> list_all2 same_letter w n"
proof (induction w arbitrary: n)
  case Nil
  then show ?case by auto
next
  case (Cons c cs)
  show ?case
  proof (cases n)
    case Nil
    then show ?thesis by simp
  next
    case (Cons d ds)
    with Cons.prems have "\<forall>c. (upper_char c = d) = same_letter c d"
      "\<forall>d \<in> set ds. \<forall>c. (upper_char c = d) = same_letter c d" by auto
    with Cons.IH [of ds] Cons show ?thesis by auto
  qed
qed

lemma contains_ci_iff:
  assumes "\<forall>d \<in> set n. \<forall>c. (upper_char c = d) = same_letter c d" and "list_all is_ascii t"
  shows "occurs n (str_upper up t) \<longleftrightarrow> contains_ci n t"
proof -
  have "\<And>i. take (length n) (drop i (map upper_char t)) = n
        \<longleftrightarrow> length (take (length n) (drop i t)) = length n
            \<and> list_all2 same_letter (take (length n) (drop i t)) n"
    using map_upper_iff [OF assms(1)] by (simp add: take_map drop_map)
  then show ?thesis
    by (simp add: contains_ci_def occurs_def str_upper_ascii [OF assms(2)])
qed

lemma verdict_letters:
  "\<forall>d \<in> set ''SUCCESS''. \<forall>c. (upper_char c = d) = same_letter c d"
  "\<forall>d \<in> set ''FAILURE_RETRY''. \<forall>c. (upper_char c = d) = same_letter c d"
  by (auto simp: upper_char_def same_letter_def lower_letters_def upper_letters_def)

lemma classify_spec: "classify other t = verdict_spec other (Some t)"
  by (simp add: classify_def verdict_spec_def str_contains_iff)

lemma classify_default: "classify other ''FAILURE_REPLAN'' = ''FAILURE_REPLAN''"
  by (simp add: classify_def str_upper_def is_ascii_def upper_char_def lower_letters_def
      upper_letters_def)

lemma verdict_spec_empty: "verdict_spec other (Some []) = ''FAILURE_REPLAN''"
  by (simp add: verdict_spec_def occurs_def str_upper_def)

lemma verdict_spec_range:
  "verdict_spec other r \<in> {''SUCCESS'', ''FAILURE_RETRY'', ''FAILURE_REPLAN''}"
  by (simp add: verdict_spec_def split: option.splits)

lemma classify_verdict_spec:
  "classify other (py_or r ''FAILURE_REPLAN'') = verdict_spec other r"
proof (cases r)
  case None
  then show ?thesis by (simp add: py_or_def classify_default verdict_spec_def)
next
  case (Some t)
  show ?thesis
  proof (cases "t = []")
    case True
    with Some show ?thesis by (simp add: py_or_def classify_default verdict_spec_empty)
  next
    case False
    with Some show ?thesis by (simp add: py_or_def classify_spec)
  qed
qed

text \<open>
  Claim C3. The verdict \<open>Evaluator.evaluate\<close> returns is the one the specification
  words, read off the engine's text with its case removed, which is the text in upper
  case: SUCCESS when that text contains it; else FAILURE_RETRY when that text contains
  it; else FAILURE_REPLAN, which is also the verdict when the engine is unavailable. It
  is always one of the three. For a text of ASCII characters, the text in upper case
  contains a verdict exactly when the text itself does with letter case ignored, letter
  by letter. (The step is a string, which the prompt can hold; for a value that cannot
  be formatted the call raises \<open>ValueError\<close>.)
\<close>

theorem evaluate_classifies:
  "evaluate other eng question current_step result tr
     = (if formats current_step
        then Inr (verdict_spec other (eng (length tr)),
                  tr @ [(EvaluatorRequest question (render current_step) result,
                         eng (length tr))])
        else Inl ValueError)
   \<and> verdict_spec other r \<in> {''SUCCESS'', ''FAILURE_RETRY'', ''FAILURE_REPLAN''}
   \<and> (list_all is_ascii t \<longrightarrow>
        (occurs ''SUCCESS'' (str_upper (upper_other other) t) \<longleftrightarrow> contains_ci ''SUCCESS'' t)
        \<and> (occurs ''FAILURE_RETRY'' (str_upper (upper_other other) t)
             \<longleftrightarrow> contains_ci ''FAILURE_RETRY'' t))"
  using verdict_spec_range [of other r] contains_ci_iff [OF verdict_letters(1), of t]
    contains_ci_iff [OF verdict_letters(2), of t]
  by (simp add: evaluate_eq classify_verdict_spec)

lemma classify_examples:
  "classify other ''Success!'' = ''SUCCESS''"
  "classify other ''failure_retry'' = ''FAILURE_RETRY''"
  "classify other ''unclear'' = ''FAILURE_REPLAN''"
  "classify upper_long_s (long_s @ ''uccess'') = ''SUCCESS''"
  by (simp_all add: classify_def str_upper_def is_ascii_def upper_char_def lower_letters_def
      upper_letters_def upper_long_s_def long_s_def)

lemma ascii_examples:
  "list_all is_ascii ''Success!''" "list_all is_ascii ''failure_retry''"
  by (simp_all add: is_ascii_def)

text \<open>
  The three verdicts, and the unavailable engine, on example replies; and a reply that
  spells the verdict with a long s, which \<open>str.upper\<close> turns into \<open>S\<close>.
\<close>

theorem evaluate_classifies_witness:
  "formats (Str ''a'')
   \<and> list_all is_ascii ''Success!'' \<and> contains_ci ''SUCCESS'' ''Success!''
   \<and> evaluate rejecting (scripted [''Success!'']) ''goal'' (Str ''a'') ''r'' []
       = Inr (''SUCCESS'', [(EvaluatorRequest ''goal'' ''a'' ''r'', Some ''Success!'')])
   \<and> list_all is_ascii ''failure_retry'' \<and> contains_ci ''FAILURE_RETRY'' ''failure_retry''
   \<and> evaluate rejecting (scripted [''failure_retry'']) ''goal'' (Str ''a'') ''r'' []
       = Inr (''FAILURE_RETRY'', [(EvaluatorRequest ''goal'' ''a'' ''r'', Some ''failure_retry'')])
   \<and> evaluate rejecting (scripted [''unclear'']) ''goal'' (Str ''a'') ''r'' []
       = Inr (''FAILURE_REPLAN'', [(EvaluatorRequest ''goal'' ''a'' ''r'', Some ''unclear'')])
   \<and> evaluate rejecting (scripted []) ''goal'' (Str ''a'') ''r'' []
       = Inr (''FAILURE_REPLAN'', [(EvaluatorRequest ''goal'' ''a'' ''r'', None)])
   \<and> evaluate upper_long_s (scripted [long_s @ ''uccess'']) ''goal'' (Str ''a'') ''r'' []
       = Inr (''SUCCESS'', [(EvaluatorRequest ''goal'' ''a'' ''r'', Some (long_s @ ''uccess''))])"
proof -
  have s: "verdict_spec rejecting (Some ''Success!'') = ''SUCCESS''"
    "verdict_spec rejecting (Some ''failure_retry'') = ''FAILURE_RETRY''"
    "verdict_spec rejecting (Some ''unclear'') = ''FAILURE_REPLAN''"
    "verdict_spec upper_long_s (Some (long_s @ ''uccess'')) = ''SUCCESS''"
    by (simp_all add: classify_spec [symmetric] classify_examples)
  have n: "verdict_spec rejecting None = ''FAILURE_REPLAN''"
    by (simp add: verdict_spec_def)
  have o: "occurs ''SUCCESS'' (str_upper (upper_other rejecting) ''Success!'')"
    "occurs ''FAILURE_RETRY'' (str_upper (upper_other rejecting) ''failure_retry'')"
    using classify_examples(1, 2) [of rejecting]
    by (simp_all add: classify_def str_contains_iff split: if_splits)
  show ?thesis
    using evaluate_classifies [of rejecting "scripted [''Success!'']" "''goal''" "Str ''a''"
        "''r''" "[]" None "''Success!''"]
      evaluate_classifies [of rejecting "scripted [''failure_retry'']" "''goal''" "Str ''a''"
        "''r''" "[]" None "''failure_retry''"]
      evaluate_classifies [of rejecting "scripted [''unclear'']" "''goal''" "Str ''a''" "''r''" "[]"]
      evaluate_classifies [of rejecting "scripted []" "''goal''" "Str ''a''" "''r''" "[]"]
      evaluate_classifies [of upper_long_s "scripted [long_s @ ''uccess'']" "''goal''" "Str ''a''"
        "''r''" "[]"]
      ascii_examples o
    by (simp add: scripted_def s n)
qed

section \<open>Orchestrator: one pass through the loop\<close>

lemma execution_at_eq:
  "execution_at eng q s =
     (if proceeds s
      then Inr (py_or (eng (length (calls s))) [],
                calls s @ [(ExecutorRequest q (plan_str_of (plan s))
                              (executor_history_str (history s)) (render (current_step_at s)),
                            eng (length (calls s)))])
      else Inl (if formats (current_step_at s) \<and> \<not> prints (current_step_at s)
                then UnicodeEncodeError else ValueError))"
  by (auto simp: execution_at_def announce_def bind_exn_def execute_step_eq proceeds_def)

lemma result_at_eq:
  "result_at eng q s = (if proceeds s then py_or (eng (length (calls s))) [] else [])"
  by (simp add: result_at_def execution_at_eq)

lemma after_execute_eq:
  "after_execute eng q s =
     (if proceeds s
      then calls s @ [(ExecutorRequest q (plan_str_of (plan s)) (executor_history_str (history s))
                         (render (current_step_at s)), eng (length (calls s)))]
      else calls s)"
  by (simp add: after_execute_def execution_at_eq)

lemma evaluation_at_eq:
  "evaluation_at other eng q s =
     (if proceeds s
      then Inr (classify other (py_or (eng (length (calls s) + 1)) ''FAILURE_REPLAN''),
                after_execute eng q s
                  @ [(EvaluatorRequest q (render (current_step_at s)) (result_at eng q s),
                      eng (length (calls s) + 1))])
      else Inl (if formats (current_step_at s) \<and> \<not> prints (current_step_at s)
                then UnicodeEncodeError else ValueError))"
  by (simp add: evaluation_at_def execution_at_eq bind_exn_def evaluate_eq result_at_eq
      after_execute_eq proceeds_def)

lemma verdict_at_eq:
  "verdict_at other eng q s =
     (if proceeds s then classify other (py_or (eng (length (calls s) + 1)) ''FAILURE_REPLAN'')
      else [])"
  by (simp add: verdict_at_def evaluation_at_eq)

lemma after_evaluate_eq:
  "after_evaluate other eng q s =
     (if proceeds s
      then after_execute eng q s
             @ [(EvaluatorRequest q (render (current_step_at s)) (result_at eng q s),
                 eng (length (calls s) + 1))]
      else calls s)"
  by (simp add: after_evaluate_def evaluation_at_eq after_execute_eq)

lemma verdict_at_range:
  "(proceeds s \<and> (verdict_at other eng q s = ''SUCCESS''
                    \<or> verdict_at other eng q s = ''FAILURE_RETRY''
                    \<or> verdict_at other eng q s = ''FAILURE_REPLAN''))
   \<or> (\<not> proceeds s \<and> verdict_at other eng q s = [])"
  using classify_range [of other "py_or (eng (length (calls s) + 1)) ''FAILURE_REPLAN''"]
  by (auto simp: verdict_at_eq)

lemma verdict_proceeds: "verdict_at other eng q s \<noteq> [] \<Longrightarrow> proceeds s"
  by (simp add: verdict_at_eq split: if_splits)

lemma replans_proceeds: "replans other eng q s \<Longrightarrow> proceeds s"
  using verdict_proceeds [of other eng q s] by (auto simp: replans_def escalated_def)

lemma cycle_eq:
  "cycle other eng q s =
     (if \<not> proceeds s
      then Return (Raised (if formats (current_step_at s) \<and> \<not> prints (current_step_at s)
                           then UnicodeEncodeError else ValueError)) [] s
      else if verdict_at other eng q s = ''SUCCESS''
      then Continue (s\<lparr>calls := after_evaluate other eng q s,
                       history := history s @ [(current_step_at s, result_at eng q s)],
                       step_index := step_index s + 1,
                       retry_count := 0\<rparr>)
      else if verdict_at other eng q s = ''FAILURE_RETRY''
      then (if retry_count s + 1 > MAX_RETRIES
            then replan other eng q (current_step_at s) (result_at eng q s)
                   (s\<lparr>calls := after_evaluate other eng q s, retry_count := retry_count s + 1\<rparr>)
            else Continue (s\<lparr>calls := after_evaluate other eng q s,
                             retry_count := retry_count s + 1\<rparr>))
      else replan other eng q (current_step_at s) (result_at eng q s)
             (s\<lparr>calls := after_evaluate other eng q s\<rparr>))"
proof (cases "proceeds s")
  case False
  then show ?thesis
    by (auto simp: cycle_def announce_def execute_step_eq proceeds_def current_step_at_def Let_def)
next
  case True
  then have a: "announce (plan s ! step_index s) = Inr ()"
    by (simp add: announce_def proceeds_def current_step_at_def)
  from True have f: "formats (plan s ! step_index s)"
    "list_all (\<lambda>(st', res). formats st') (history s)" "list_all formats (plan s)"
    by (simp_all add: proceeds_def current_step_at_def)
  show ?thesis
    using True classify_range [of other "py_or (eng (length (calls s) + 1)) ''FAILURE_REPLAN''"]
    by (auto simp: cycle_def a f execute_step_eq evaluate_eq verdict_at_eq result_at_eq
        after_evaluate_eq after_execute_eq current_step_at_def Let_def)
qed

lemma replan_eq:
  "replan other eng q st res s =
     (if replan_count s + 1 > MAX_REPLANS
      then Return Replan_budget_exhausted msg_replan_budget (s\<lparr>replan_count := replan_count s + 1\<rparr>)
      else if \<not> (formats st \<and> list_all (\<lambda>(st', res'). formats st') (history s))
      then Return (Raised ValueError) [] (s\<lparr>replan_count := replan_count s + 1\<rparr>)
      else if parse_plan other (py_or (eng (length (calls s))) []) = []
      then Return Replan_failed msg_replan_failed
             (s\<lparr>replan_count := replan_count s + 1,
                plan := [],
                calls := calls s @ [(PlannerRequest q (planner_history_str (history s))
                                       (failure_info_of st res), eng (length (calls s)))]\<rparr>)
      else Continue
             (s\<lparr>replan_count := replan_count s + 1,
                plan := parse_plan other (py_or (eng (length (calls s))) []),
                calls := calls s @ [(PlannerRequest q (planner_history_str (history s))
                                       (failure_info_of st res), eng (length (calls s)))],
                step_index := 0, retry_count := 0\<rparr>))"
  by (auto simp: replan_def generate_plan_eq Let_def)

lemma new_plan_at_eq:
  "new_plan_at other eng q s =
     (if list_all (\<lambda>(st, res). formats st) (history s)
      then parse_plan other (py_or (eng (length (after_evaluate other eng q s))) [])
      else [])"
  by (simp add: new_plan_at_def generate_plan_eq)

section \<open>Orchestrator: the loop\<close>

lemma flow_state_replan_count:
  "replan_count (flow_state (replan other eng q st res s)) = replan_count s + 1"
  by (simp add: replan_eq)

lemma replan_budget_iff:
  "(\<exists>m s'. replan other eng q st res s = Return Replan_budget_exhausted m s')
     \<longleftrightarrow> replan_count s + 1 > MAX_REPLANS"
  by (simp add: replan_eq)

lemma replan_budget_msg:
  "replan other eng q st res s = Return Replan_budget_exhausted m s' \<Longrightarrow> m = msg_replan_budget"
  by (simp add: replan_eq split: if_splits)

lemma replan_returns:
  "replan other eng q st res s = Return e m s' \<Longrightarrow>
     formats st \<Longrightarrow> list_all (\<lambda>(st', res'). formats st') (history s) \<Longrightarrow>
     (e = Replan_budget_exhausted \<and> replan_count s' > MAX_REPLANS)
     \<or> (e = Replan_failed \<and> replan_count s' \<le> MAX_REPLANS)"
  by (auto simp: replan_eq split: if_splits)

lemma replan_continues:
  "replan other eng q st res s = Continue s' \<Longrightarrow>
     replan_count s' = replan_count s + 1 \<and> replan_count s' \<le> MAX_REPLANS
     \<and> step_index s' = 0 \<and> retry_count s' = 0 \<and> history s' = history s
     \<and> plan s' = parse_plan other (py_or (eng (length (calls s))) [])
     \<and> list_all (\<lambda>(st', res'). formats st') (history s)
     \<and> plan s' \<noteq> []"
  by (auto simp: replan_eq split: if_splits)

lemma cycle_returns:
  assumes "cycle other eng q s = Return e m s'"
  shows "(e = Replan_budget_exhausted \<and> replan_count s' > MAX_REPLANS)
     \<or> (e = Replan_failed \<and> replan_count s' \<le> MAX_REPLANS)
     \<or> (e = Raised (if formats (current_step_at s) \<and> \<not> prints (current_step_at s)
                     then UnicodeEncodeError else ValueError)
         \<and> m = [] \<and> s' = s \<and> \<not> proceeds s)"
proof (cases "proceeds s")
  case False
  with assms show ?thesis by (auto simp: cycle_eq)
next
  case True
  then have f: "formats (current_step_at s)" "list_all (\<lambda>(st', res'). formats st') (history s)"
    by (simp_all add: proceeds_def)
  from assms True obtain u where
    u: "replan other eng q (current_step_at s) (result_at eng q s) u = Return e m s'"
    "history u = history s"
    by (auto simp: cycle_eq split: if_splits)
  from replan_returns [OF u(1) f(1)] f(2) u(2) show ?thesis by auto
qed

lemma cycle_decreases:
  assumes "step_index s < length (plan s)" and "cycle other eng q s = Continue s'"
  shows "(loop_rank s', loop_rank s) \<in> less_than <*lex*> less_than <*lex*> less_than"
proof -
  from assms(2) have p: "proceeds s" by (auto simp: cycle_eq split: if_splits)
  consider (ok) "verdict_at other eng q s = ''SUCCESS''"
    | (retry) "verdict_at other eng q s = ''FAILURE_RETRY''" "\<not> retry_count s + 1 > MAX_RETRIES"
    | (esc) "verdict_at other eng q s = ''FAILURE_RETRY''" "retry_count s + 1 > MAX_RETRIES"
    | (re) "verdict_at other eng q s = ''FAILURE_REPLAN''"
    using verdict_at_range [of s other eng q] p by auto
  then show ?thesis
  proof cases
    case ok
    with assms p show ?thesis by (auto simp: cycle_eq loop_rank_def)
  next
    case retry
    with assms p show ?thesis by (auto simp: cycle_eq loop_rank_def MAX_RETRIES_def)
  next
    case esc
    with assms p have "replan other eng q (current_step_at s) (result_at eng q s)
        (s\<lparr>calls := after_evaluate other eng q s, retry_count := retry_count s + 1\<rparr>) = Continue s'"
      by (simp add: cycle_eq)
    from replan_continues [OF this] show ?thesis
      by (auto simp: loop_rank_def MAX_REPLANS_def)
  next
    case re
    with assms p have "replan other eng q (current_step_at s) (result_at eng q s)
        (s\<lparr>calls := after_evaluate other eng q s\<rparr>) = Continue s'"
      by (simp add: cycle_eq)
    from replan_continues [OF this] show ?thesis
      by (auto simp: loop_rank_def MAX_REPLANS_def)
  qed
qed

lemma wf_loop_order:
  "wf (inv_image (less_than <*lex*> less_than <*lex*> less_than) loop_rank)"
  by (intro wf_inv_image wf_lex_prod wf_less_than)

lemma loop_induct:
  assumes "\<And>s. (\<And>s'. step_index s < length (plan s) \<Longrightarrow> cycle other eng q s = Continue s'
              \<Longrightarrow> P s') \<Longrightarrow> P s"
  shows "P s"
proof (induction s rule: wf_induct_rule [OF wf_loop_order])
  case (1 s)
  show ?case
  proof (rule assms)
    fix s'
    assume "step_index s < length (plan s)" "cycle other eng q s = Continue s'"
    then have "(s', s) \<in> inv_image (less_than <*lex*> less_than <*lex*> less_than) loop_rank"
      using cycle_decreases by (simp add: inv_image_def)
    then show "P s'" by (rule 1)
  qed
qed


lemma run_eq:
  "run other eng q self =
     (if plan (initial_state other eng q self) = []
      then Some (No_initial_plan, msg_no_initial_plan,
                 (initial_state other eng q self)
                   \<lparr>step_index := step_index self, retry_count := retry_count self\<rparr>)
      else loop other eng q (initial_state other eng q self))"
  by (simp add: run_def initial_state_def generate_plan_eq Let_def)

lemma reaches_first:
  assumes "step_index s < length (plan s)" and "cycle other eng q s = Continue s'"
    and "reaches other eng q s' t"
  shows "reaches other eng q s t"
  using assms(3, 1, 2)
proof (induction rule: reaches.induct)
  case (reaches_refl u)
  then show ?case by (metis reaches.intros)
next
  case (reaches_step u v w)
  then show ?case by (metis reaches.intros)
qed

lemma loop_outcome:
  "loop other eng q s = Some (e, a, sf) \<Longrightarrow>
     \<exists>t. reaches other eng q s t
        \<and> ((\<not> step_index t < length (plan t) \<and> e = All_steps_done \<and> sf = t
             \<and> a = (if history t \<noteq> [] then snd (last (history t)) else msg_nothing_done))
           \<or> (step_index t < length (plan t) \<and> cycle other eng q t = Return e a sf))"
proof (induction s rule: loop_induct [where other = other and eng = eng and q = q])
  case (1 s)
  show ?case
  proof (cases "step_index s < length (plan s)")
    case False
    with 1(2) have "e = All_steps_done \<and> sf = s
        \<and> a = (if history s \<noteq> [] then snd (last (history s)) else msg_nothing_done)"
      by (subst (asm) loop.simps) auto
    with False show ?thesis by (metis reaches_refl)
  next
    case True
    show ?thesis
    proof (cases "cycle other eng q s")
      case (Return e' m s')
      with True 1(2) have "cycle other eng q s = Return e a sf"
        by (subst (asm) loop.simps) simp
      with True show ?thesis by (metis reaches_refl)
    next
      case (Continue s')
      with True 1(2) have "loop other eng q s' = Some (e, a, sf)"
        by (subst (asm) loop.simps) simp
      from 1(1) [OF True Continue this] obtain t where
        t: "reaches other eng q s' t"
        "(\<not> step_index t < length (plan t) \<and> e = All_steps_done \<and> sf = t
             \<and> a = (if history t \<noteq> [] then snd (last (history t)) else msg_nothing_done))
           \<or> (step_index t < length (plan t) \<and> cycle other eng q t = Return e a sf)"
        by blast
      from reaches_first [OF True Continue t(1)] t(2) show ?thesis by blast
    qed
  qed
qed

lemma initial_state_fields:
  "history (initial_state other eng q self) = []"
  "replan_count (initial_state other eng q self) = 0"
  "step_index (initial_state other eng q self) = 0"
  "retry_count (initial_state other eng q self) = 0"
  "calls (initial_state other eng q self)
     = [(PlannerRequest q txt_none txt_none, eng 0)]"
  "plan (initial_state other eng q self) = parse_plan other (py_or (eng 0) [])"
  by (simp_all add: initial_state_def generate_plan_eq planner_history_str_def)

lemma cycle_continues:
  assumes "cycle other eng q s = Continue s'"
  shows "if replans other eng q s
         then replan_count s' = replan_count s + 1 \<and> replan_count s' \<le> MAX_REPLANS
              \<and> plan s' = new_plan_at other eng q s \<and> plan s' \<noteq> []
              \<and> step_index s' = 0 \<and> retry_count s' = 0 \<and> history s' = history s
         else replan_count s' = replan_count s \<and> plan s' = plan s
              \<and> step_index s \<le> step_index s'"
proof -
  from assms have p: "proceeds s" by (auto simp: cycle_eq split: if_splits)
  consider (ok) "verdict_at other eng q s = ''SUCCESS''"
    | (retry) "verdict_at other eng q s = ''FAILURE_RETRY''" "\<not> retry_count s + 1 > MAX_RETRIES"
    | (esc) "verdict_at other eng q s = ''FAILURE_RETRY''" "retry_count s + 1 > MAX_RETRIES"
    | (re) "verdict_at other eng q s = ''FAILURE_REPLAN''"
    using verdict_at_range [of s other eng q] p by auto
  then show ?thesis
  proof cases
    case ok
    with assms p show ?thesis by (auto simp: cycle_eq replans_def escalated_def)
  next
    case retry
    with assms p show ?thesis by (auto simp: cycle_eq replans_def escalated_def)
  next
    case esc
    with assms p have "replan other eng q (current_step_at s) (result_at eng q s)
        (s\<lparr>calls := after_evaluate other eng q s, retry_count := retry_count s + 1\<rparr>) = Continue s'"
      by (simp add: cycle_eq)
    from replan_continues [OF this] esc show ?thesis
      by (auto simp: replans_def escalated_def new_plan_at_eq)
  next
    case re
    with assms p have "replan other eng q (current_step_at s) (result_at eng q s)
        (s\<lparr>calls := after_evaluate other eng q s\<rparr>) = Continue s'"
      by (simp add: cycle_eq)
    from replan_continues [OF this] re show ?thesis
      by (auto simp: replans_def escalated_def new_plan_at_eq)
  qed
qed

lemma reaches_replan_count:
  "reaches other eng q s t \<Longrightarrow>
     replan_count s \<le> replan_count t
     \<and> (replan_count s \<le> MAX_REPLANS \<longrightarrow> replan_count t \<le> MAX_REPLANS)"
proof (induction rule: reaches.induct)
  case (reaches_refl s)
  then show ?case by simp
next
  case (reaches_step s s' s'')
  from cycle_continues [OF reaches_step(3)] reaches_step(4) show ?case
    by (auto split: if_splits)
qed

lemma successes_append:
  "successes other (tr @ tr') = successes other tr @ successes other tr'"
  by (simp add: successes_def)

lemma successes_simps:
  "successes other [] = []" "successes other (x # tr) = success_of other x @ successes other tr"
  by (simp_all add: successes_def)

lemma successes_after_evaluate:
  "successes other (after_evaluate other eng q s)
     = successes other (calls s)
       @ (if verdict_at other eng q s = ''SUCCESS''
          then [(render (current_step_at s), result_at eng q s)] else [])"
  by (simp add: after_evaluate_eq after_execute_eq successes_append successes_simps verdict_at_eq)

lemma replan_history:
  "history (flow_state (replan other eng q st res s)) = history s"
  by (simp add: replan_eq)

lemma replan_successes:
  "successes other (calls (flow_state (replan other eng q st res s))) = successes other (calls s)"
  by (simp add: replan_eq successes_append successes_simps)

lemma cycle_history:
  "history (flow_state (cycle other eng q s))
     = history s
       @ (if verdict_at other eng q s = ''SUCCESS''
          then [(current_step_at s, result_at eng q s)] else [])"
  using verdict_at_range [of s other eng q] by (auto simp: cycle_eq replan_history)

lemma cycle_successes:
  "successes other (calls (flow_state (cycle other eng q s)))
     = successes other (calls s)
       @ (if verdict_at other eng q s = ''SUCCESS''
          then [(render (current_step_at s), result_at eng q s)] else [])"
  using verdict_at_range [of s other eng q]
  by (auto simp: cycle_eq replan_successes successes_after_evaluate)

lemma cycle_keeps_record:
  assumes "map rendered (history s) = successes other (calls s)"
  shows "map rendered (history (flow_state (cycle other eng q s)))
           = successes other (calls (flow_state (cycle other eng q s)))"
  using assms by (simp add: cycle_history cycle_successes)

lemma reaches_history:
  "reaches other eng q s t \<Longrightarrow>
     prefix (history s) (history t)
     \<and> (map rendered (history s) = successes other (calls s)
          \<longrightarrow> map rendered (history t) = successes other (calls t))"
proof (induction rule: reaches.induct)
  case (reaches_refl s)
  then show ?case by simp
next
  case (reaches_step s s' s'')
  from reaches_step(3) have f: "flow_state (cycle other eng q s') = s''" by simp
  from cycle_history [of other eng q s'] f have "prefix (history s') (history s'')"
    by (metis prefixI)
  moreover from cycle_keeps_record [of s' other eng q] f
  have "map rendered (history s') = successes other (calls s')
          \<longrightarrow> map rendered (history s'') = successes other (calls s'')"
    by simp
  ultimately show ?case using reaches_step(4) by (auto intro: prefix_order.trans)
qed

lemma kinds_after_evaluate:
  "proceeds s \<Longrightarrow>
   map kind_of (after_evaluate other eng q s)
     = map kind_of (calls s)
       @ [Executes (render (current_step_at s)), Evaluates (render (current_step_at s))]"
  by (simp add: after_evaluate_eq after_execute_eq)

lemma pass_retry:
  assumes "verdict_at other eng q s = ''FAILURE_RETRY''" and "retry_count s + 1 \<le> MAX_RETRIES"
  shows "cycle other eng q s
           = Continue (s\<lparr>calls := after_evaluate other eng q s, retry_count := retry_count s + 1\<rparr>)"
    and "pass other eng q s
           = s\<lparr>calls := after_evaluate other eng q s, retry_count := retry_count s + 1\<rparr>"
  using assms verdict_proceeds [of other eng q s] by (simp_all add: pass_def cycle_eq)

lemma cycle_replans:
  assumes "replans other eng q s" and "replan_count s < MAX_REPLANS"
    and "new_plan_at other eng q s \<noteq> []"
  shows "cycle other eng q s = Continue (pass other eng q s)"
proof -
  from assms(1) have p: "proceeds s" by (rule replans_proceeds)
  then have f: "formats (current_step_at s)" "list_all (\<lambda>(st', res'). formats st') (history s)"
    by (simp_all add: proceeds_def)
  from assms p f have "\<exists>s'. cycle other eng q s = Continue s'"
    by (auto simp: cycle_eq replan_eq replans_def escalated_def new_plan_at_eq)
  then show ?thesis by (auto simp: pass_def)
qed






section \<open>The example run\<close>

lemma parse_plan_examples:
  "parse_plan other reply_one_step = [Str ''a'']"
  "parse_plan other reply_two_steps = [Str ''a'', Str ''b'']"
  by (simp_all add: reply_one_step_def reply_two_steps_def dq_def parse_plan_def plan_try_def
      bind_exn_def str_split_def item_def str_strip_def is_space_def literal_eval_def
      parse_flat_list_def trim_def parse_item_def is_decimal_def plain_char_def)

lemma classify_tokens:
  "classify other ''SUCCESS'' = ''SUCCESS''"
  "classify other ''FAILURE_RETRY'' = ''FAILURE_RETRY''"
  "classify other ''FAILURE_REPLAN'' = ''FAILURE_REPLAN''"
  by (simp_all add: classify_def str_upper_def is_ascii_def upper_char_def lower_letters_def
      upper_letters_def)

lemma py_or_examples:
  "py_or (Some reply_one_step) [] = reply_one_step"
  "py_or (Some reply_two_steps) [] = reply_two_steps"
  "py_or (Some reply_surrogate) [] = reply_surrogate"
  by (simp_all add: py_or_def reply_one_step_def reply_two_steps_def reply_surrogate_def)

lemmas run_simps =
  run_eq initial_state_def generate_plan_eq loop.simps cycle_eq replan_eq verdict_at_eq
  result_at_eq after_evaluate_eq after_execute_eq current_step_at_def proceeds_def scripted_def
  parse_plan_examples classify_tokens py_or_examples MAX_RETRIES_def MAX_REPLANS_def

lemmas example_simps =
  run_simps pass_def first_state_def retry_state_def exhausted_state_def retry_engine_def
  used_agent_def py_or_def

lemma first_state_fields:
  "plan first_state = [Str ''a'', Str ''b'']" "step_index first_state = 0"
  "retry_count first_state = 0" "replan_count first_state = 0" "history first_state = []"
  "length (calls first_state) = 1"
  by (simp_all add: example_simps)

lemma retry_state_fields:
  "plan retry_state = [Str ''a'', Str ''b'']" "step_index retry_state = 1"
  "retry_count retry_state = 0" "replan_count retry_state = 0"
  "history retry_state = [(Str ''a'', ''r1'')]" "length (calls retry_state) = 3"
  by (simp_all add: example_simps)

lemma exhausted_state_fields:
  "plan exhausted_state = [Str ''a'', Str ''b'']" "step_index exhausted_state = 1"
  "retry_count exhausted_state = 2" "replan_count exhausted_state = 0"
  "history exhausted_state = [(Str ''a'', ''r1'')]" "length (calls exhausted_state) = 7"
  by (simp_all add: example_simps)

lemma replanned_state_fields:
  "plan (pass rejecting retry_engine ''goal'' exhausted_state) = [Str ''a'']"
  "step_index (pass rejecting retry_engine ''goal'' exhausted_state) = 0"
  "retry_count (pass rejecting retry_engine ''goal'' exhausted_state) = 0"
  "replan_count (pass rejecting retry_engine ''goal'' exhausted_state) = 1"
  "history (pass rejecting retry_engine ''goal'' exhausted_state) = [(Str ''a'', ''r1'')]"
  by (simp_all add: example_simps)

lemma example_verdicts:
  "verdict_at rejecting retry_engine ''goal'' first_state = ''SUCCESS''"
  "verdict_at rejecting retry_engine ''goal'' retry_state = ''FAILURE_RETRY''"
  "verdict_at rejecting retry_engine ''goal'' (pass rejecting retry_engine ''goal'' retry_state)
     = ''FAILURE_RETRY''"
  "verdict_at rejecting retry_engine ''goal'' exhausted_state = ''FAILURE_RETRY''"
  by (simp_all add: example_simps)

lemma example_passes:
  "cycle rejecting retry_engine ''goal'' first_state = Continue retry_state"
  "cycle rejecting retry_engine ''goal'' retry_state
     = Continue (pass rejecting retry_engine ''goal'' retry_state)"
  "cycle rejecting retry_engine ''goal'' exhausted_state
     = Continue (pass rejecting retry_engine ''goal'' exhausted_state)"
  by (simp_all add: example_simps)

lemma retry_run:
  "run rejecting retry_engine ''goal'' used_agent
     = Some (All_steps_done, ''w'', run_final rejecting retry_engine ''goal'' used_agent)"
  "history (run_final rejecting retry_engine ''goal'' used_agent)
     = [(Str ''a'', ''r1''), (Str ''a'', ''w'')]"
  "replan_count (run_final rejecting retry_engine ''goal'' used_agent) = 1"
  "successes rejecting (calls (run_final rejecting retry_engine ''goal'' used_agent))
     = [(''a'', ''r1''), (''a'', ''w'')]"
  by (simp_all add: run_final_def example_simps successes_simps)

lemma retry_run_outline:
  "map outline (run_calls rejecting retry_engine ''goal'' used_agent)
     = [(Plans, Some reply_two_steps),
        (Executes ''a'', Some ''r1''), (Evaluates ''a'', Some ''SUCCESS''),
        (Executes ''b'', Some ''x''), (Evaluates ''b'', Some ''FAILURE_RETRY''),
        (Executes ''b'', Some ''y''), (Evaluates ''b'', Some ''FAILURE_RETRY''),
        (Executes ''b'', Some ''z''), (Evaluates ''b'', Some ''FAILURE_RETRY''),
        (Plans, Some reply_one_step),
        (Executes ''a'', Some ''w''), (Evaluates ''a'', Some ''SUCCESS'')]"
  by (simp add: run_calls_def example_simps)

lemma example_reaches:
  "reaches rejecting retry_engine ''goal'' exhausted_state
     (pass rejecting retry_engine ''goal'' exhausted_state)"
  "reaches rejecting retry_engine ''goal'' first_state retry_state"
proof -
  have g: "step_index exhausted_state < length (plan exhausted_state)"
    "step_index first_state < length (plan first_state)"
    by (simp_all add: exhausted_state_fields first_state_fields)
  show "reaches rejecting retry_engine ''goal'' exhausted_state
     (pass rejecting retry_engine ''goal'' exhausted_state)"
    by (rule reaches_step [OF reaches_refl g(1) example_passes(3)])
  show "reaches rejecting retry_engine ''goal'' first_state retry_state"
    by (rule reaches_step [OF reaches_refl g(2) example_passes(1)])
qed

lemma exhausted_replans: "replans rejecting retry_engine ''goal'' exhausted_state"
  by (simp add: replans_def escalated_def example_verdicts exhausted_state_fields MAX_RETRIES_def)

lemma exhausted_new_plan:
  "new_plan_at rejecting retry_engine ''goal'' exhausted_state = [Str ''a'']"
  by (simp add: new_plan_at_eq example_simps)





section \<open>Properties of the orchestrator\<close>




text \<open>
  Claim C6. A run that ends with all steps done returns the result of the last history
  entry, or the text for "nothing completed" when the history is empty.
\<close>

theorem run_final_answer:
  assumes "run other eng q self = Some (All_steps_done, a, sf)"
  shows "a = (if history sf \<noteq> [] then snd (last (history sf)) else msg_nothing_done)"
proof -
  from assms have l: "loop other eng q (initial_state other eng q self) = Some (All_steps_done, a, sf)"
    by (simp add: run_eq split: if_splits)
  from loop_outcome [OF l] cycle_returns show ?thesis by fastforce
qed

text \<open>
  The example run ends with all steps done and returns \<open>w\<close>, the result of its last
  history entry.
\<close>

theorem run_final_answer_witness:
  "run rejecting retry_engine ''goal'' used_agent
     = Some (All_steps_done, ''w'', run_final rejecting retry_engine ''goal'' used_agent)
   \<and> history (run_final rejecting retry_engine ''goal'' used_agent)
       = [(Str ''a'', ''r1''), (Str ''a'', ''w'')]
   \<and> ''w'' = snd (last (history (run_final rejecting retry_engine ''goal'' used_agent)))"
  using run_final_answer [OF retry_run(1)] retry_run(1) by (simp add: retry_run(2))

text \<open>
  Claim C5. A pass that makes a replan transition, within the budget and with a new plan
  that is not empty, goes back to the loop test. After any pass that goes back to the
  loop test: if it made a replan transition, the plan is the planner's new plan, which
  is not empty, and the step index and the retry counter are 0; if it did not, the plan
  is the same and the step index has not decreased.
\<close>

theorem replan_replaces_plan:
  assumes "step_index s < length (plan s)"
  shows "(replans other eng q s \<and> replan_count s < MAX_REPLANS \<and> new_plan_at other eng q s \<noteq> []
            \<longrightarrow> cycle other eng q s = Continue (pass other eng q s))
       \<and> (cycle other eng q s = Continue s' \<longrightarrow>
            (if replans other eng q s
             then plan s' = new_plan_at other eng q s \<and> plan s' \<noteq> []
                  \<and> step_index s' = 0 \<and> retry_count s' = 0
             else plan s' = plan s \<and> step_index s \<le> step_index s'))"
proof -
  have "if replans other eng q s
        then plan s' = new_plan_at other eng q s \<and> plan s' \<noteq> []
             \<and> step_index s' = 0 \<and> retry_count s' = 0
        else plan s' = plan s \<and> step_index s \<le> step_index s'"
    if "cycle other eng q s = Continue s'"
    using cycle_continues [OF that] by (auto split: if_splits)
  then show ?thesis using cycle_replans [of other eng q s] by blast
qed

text \<open>
  In the example run, the pass that exhausts the retries of the second step replaces the
  plan of two steps by the plan of one step and sets the step index from 1 to 0.
\<close>

theorem replan_replaces_plan_witness:
  "step_index exhausted_state < length (plan exhausted_state)
   \<and> replans rejecting retry_engine ''goal'' exhausted_state
   \<and> replan_count exhausted_state < MAX_REPLANS
   \<and> new_plan_at rejecting retry_engine ''goal'' exhausted_state = [Str ''a'']
   \<and> cycle rejecting retry_engine ''goal'' exhausted_state
       = Continue (pass rejecting retry_engine ''goal'' exhausted_state)
   \<and> plan exhausted_state = [Str ''a'', Str ''b'']
   \<and> plan (pass rejecting retry_engine ''goal'' exhausted_state) = [Str ''a'']
   \<and> step_index exhausted_state = 1
   \<and> step_index (pass rejecting retry_engine ''goal'' exhausted_state) = 0
   \<and> retry_count (pass rejecting retry_engine ''goal'' exhausted_state) = 0"
proof -
  have g: "step_index exhausted_state < length (plan exhausted_state)"
    by (simp add: exhausted_state_fields)
  show ?thesis
    using replan_replaces_plan [OF g, of rejecting retry_engine "''goal''"
        "pass rejecting retry_engine ''goal'' exhausted_state"]
      g example_passes(3) exhausted_replans
    by (simp add: exhausted_state_fields replanned_state_fields exhausted_new_plan
        MAX_REPLANS_def)
qed

text \<open>
  Claim C4. A pass adds 1 to the replan counter when it makes a replan transition, direct
  or escalated, and leaves it as it is otherwise; it returns with the replan budget
  exhausted exactly when it makes a replan transition and the incremented counter
  exceeds the bound, and then with the budget message. From one loop test to a later
  one the counter never decreases. A run ends with the replan budget exhausted exactly
  when its counter has exceeded the bound, and then returns the budget message.
\<close>

theorem replan_counter:
  "(step_index s < length (plan s) \<longrightarrow>
      replan_count (flow_state (cycle other eng q s))
        = (if replans other eng q s then replan_count s + 1 else replan_count s)
      \<and> ((\<exists>m t. cycle other eng q s = Return Replan_budget_exhausted m t)
           \<longleftrightarrow> replans other eng q s \<and> replan_count s + 1 > MAX_REPLANS)
      \<and> (\<forall>m t. cycle other eng q s = Return Replan_budget_exhausted m t
           \<longrightarrow> m = msg_replan_budget))
   \<and> (reaches other eng q s s' \<longrightarrow> replan_count s \<le> replan_count s')
   \<and> (run other eng q self = Some (e, a, sf) \<longrightarrow>
        (e = Replan_budget_exhausted \<longleftrightarrow> replan_count sf > MAX_REPLANS)
        \<and> (e = Replan_budget_exhausted \<longrightarrow> a = msg_replan_budget))"
proof -
  have pass: "replan_count (flow_state (cycle other eng q s))
        = (if replans other eng q s then replan_count s + 1 else replan_count s)
      \<and> ((\<exists>m t. cycle other eng q s = Return Replan_budget_exhausted m t)
           \<longleftrightarrow> replans other eng q s \<and> replan_count s + 1 > MAX_REPLANS)
      \<and> (\<forall>m t. cycle other eng q s = Return Replan_budget_exhausted m t
           \<longrightarrow> m = msg_replan_budget)"
    using verdict_at_range [of s other eng q]
    by (auto simp: cycle_eq replans_def escalated_def flow_state_replan_count replan_budget_iff
        dest: replan_budget_msg)
  have whole: "(e = Replan_budget_exhausted \<longleftrightarrow> replan_count sf > MAX_REPLANS)
        \<and> (e = Replan_budget_exhausted \<longrightarrow> a = msg_replan_budget)"
    if r: "run other eng q self = Some (e, a, sf)"
  proof (cases "plan (initial_state other eng q self) = []")
    case True
    with r show ?thesis by (auto simp: run_eq initial_state_fields)
  next
    case False
    with r have l: "loop other eng q (initial_state other eng q self) = Some (e, a, sf)"
      by (simp add: run_eq)
    from loop_outcome [OF l] obtain t where
      t: "reaches other eng q (initial_state other eng q self) t"
      "(\<not> step_index t < length (plan t) \<and> e = All_steps_done \<and> sf = t)
       \<or> cycle other eng q t = Return e a sf"
      by blast
    from reaches_replan_count [OF t(1)] have k: "replan_count t \<le> MAX_REPLANS"
      by (simp add: initial_state_fields)
    from t(2) show ?thesis
    proof
      assume "\<not> step_index t < length (plan t) \<and> e = All_steps_done \<and> sf = t"
      with k show ?thesis by auto
    next
      assume c: "cycle other eng q t = Return e a sf"
      from cycle_returns [OF c] k
      have "e = Replan_budget_exhausted \<longleftrightarrow> replan_count sf > MAX_REPLANS"
        by auto
      moreover from c have "e = Replan_budget_exhausted \<longrightarrow> a = msg_replan_budget"
        using verdict_at_range [of t other eng q]
        by (auto simp: cycle_eq split: if_splits dest: replan_budget_msg)
      ultimately show ?thesis by simp
    qed
  qed
  show ?thesis
    using pass whole reaches_replan_count [of other eng q s s'] by blast
qed

text \<open>
  In the example run the escalated retry raises the counter from 0 to 1, and the run
  ends with the counter at 1, within the bound.
\<close>

theorem replan_counter_witness:
  "step_index exhausted_state < length (plan exhausted_state)
   \<and> replans rejecting retry_engine ''goal'' exhausted_state
   \<and> replan_count exhausted_state = 0
   \<and> replan_count (flow_state (cycle rejecting retry_engine ''goal'' exhausted_state)) = 1
   \<and> reaches rejecting retry_engine ''goal'' exhausted_state
        (pass rejecting retry_engine ''goal'' exhausted_state)
   \<and> replan_count exhausted_state
        \<le> replan_count (pass rejecting retry_engine ''goal'' exhausted_state)
   \<and> run rejecting retry_engine ''goal'' used_agent
        = Some (All_steps_done, ''w'', run_final rejecting retry_engine ''goal'' used_agent)
   \<and> \<not> replan_count (run_final rejecting retry_engine ''goal'' used_agent) > MAX_REPLANS"
  using replan_counter [of exhausted_state rejecting retry_engine "''goal''"
      "pass rejecting retry_engine ''goal'' exhausted_state" used_agent All_steps_done "''w''"
      "run_final rejecting retry_engine ''goal'' used_agent"]
    example_reaches(1) exhausted_replans retry_run(1)
  by (simp add: exhausted_state_fields)

text \<open>
  Claim C8. A pass appends one entry to the history, the current step with its result,
  when the verdict is SUCCESS, and leaves the history as it is otherwise. From one loop
  test to a later one the history only grows at its end. A run starts with the empty
  history, whatever the agent object held, and at its end the history lists, in the
  order of the transcript, the steps and results of the evaluations that gave SUCCESS.
\<close>

theorem history_records_successes:
  "(step_index s < length (plan s) \<longrightarrow>
      history (flow_state (cycle other eng q s))
        = history s
          @ (if verdict_at other eng q s = ''SUCCESS''
             then [(current_step_at s, result_at eng q s)] else []))
   \<and> (reaches other eng q s s' \<longrightarrow> prefix (history s) (history s'))
   \<and> history (initial_state other eng q self) = []
   \<and> (run other eng q self = Some (e, a, sf) \<longrightarrow>
        map rendered (history sf) = successes other (calls sf))"
proof -
  have "map rendered (history sf) = successes other (calls sf)"
    if r: "run other eng q self = Some (e, a, sf)"
  proof (cases "plan (initial_state other eng q self) = []")
    case True
    with r show ?thesis
      by (auto simp: run_eq initial_state_fields successes_def)
  next
    case False
    with r have l: "loop other eng q (initial_state other eng q self) = Some (e, a, sf)"
      by (simp add: run_eq)
    have i: "map rendered (history (initial_state other eng q self))
               = successes other (calls (initial_state other eng q self))"
      by (simp add: initial_state_fields successes_def)
    from loop_outcome [OF l] obtain t where
      t: "reaches other eng q (initial_state other eng q self) t"
      "(\<not> step_index t < length (plan t) \<and> sf = t) \<or> cycle other eng q t = Return e a sf"
      by blast
    from reaches_history [OF t(1)] i
    have k: "map rendered (history t) = successes other (calls t)"
      by simp
    from t(2) show ?thesis
    proof
      assume "\<not> step_index t < length (plan t) \<and> sf = t"
      with k show ?thesis by simp
    next
      assume "cycle other eng q t = Return e a sf"
      then have "flow_state (cycle other eng q t) = sf" by simp
      with cycle_keeps_record [OF k, of eng q] show ?thesis by simp
    qed
  qed
  then show ?thesis
    using reaches_history [of other eng q s s']
    by (simp add: cycle_history initial_state_fields)
qed

text \<open>
  The example run, started on an agent object with an old history entry: the first pass
  appends the first step, and the final history holds the two successes of the run, in
  the order they occurred, the second one from the plan made by the replan.
\<close>

theorem history_records_successes_witness:
  "step_index first_state < length (plan first_state)
   \<and> verdict_at rejecting retry_engine ''goal'' first_state = ''SUCCESS''
   \<and> history first_state = []
   \<and> history (flow_state (cycle rejecting retry_engine ''goal'' first_state))
       = [(Str ''a'', ''r1'')]
   \<and> reaches rejecting retry_engine ''goal'' first_state retry_state
   \<and> prefix (history first_state) (history retry_state)
   \<and> run rejecting retry_engine ''goal'' used_agent
       = Some (All_steps_done, ''w'', run_final rejecting retry_engine ''goal'' used_agent)
   \<and> map rendered (history (run_final rejecting retry_engine ''goal'' used_agent))
       = [(''a'', ''r1''), (''a'', ''w'')]
   \<and> successes rejecting (calls (run_final rejecting retry_engine ''goal'' used_agent))
       = [(''a'', ''r1''), (''a'', ''w'')]"
  using history_records_successes [of first_state rejecting retry_engine "''goal''" retry_state
      used_agent All_steps_done "''w''" "run_final rejecting retry_engine ''goal'' used_agent"]
    example_reaches(2) retry_run(1) example_verdicts(1)
  by (simp add: first_state_fields retry_run(4) example_passes(1) retry_state_fields)

text \<open>
  Claim C1, as stated, fails on the example run. The second step \<open>b\<close> is judged
  FAILURE_RETRY three times. The third of these evaluations, entry 8 of the transcript,
  is the one that is escalated: the next entry is the planner's. Before it, step \<open>b\<close>
  has been executed three times, the third execution being entry 7.
\<close>

theorem third_evaluation_after_third_execution:
  "map outline (run_calls rejecting retry_engine ''goal'' used_agent)
     = [(Plans, Some reply_two_steps),
        (Executes ''a'', Some ''r1''), (Evaluates ''a'', Some ''SUCCESS''),
        (Executes ''b'', Some ''x''), (Evaluates ''b'', Some ''FAILURE_RETRY''),
        (Executes ''b'', Some ''y''), (Evaluates ''b'', Some ''FAILURE_RETRY''),
        (Executes ''b'', Some ''z''), (Evaluates ''b'', Some ''FAILURE_RETRY''),
        (Plans, Some reply_one_step),
        (Executes ''a'', Some ''w''), (Evaluates ''a'', Some ''SUCCESS'')]
   \<and> map outline (run_calls rejecting retry_engine ''goal'' used_agent) ! 8
       = (Evaluates ''b'', Some ''FAILURE_RETRY'')
   \<and> count_list (take 8 (map outline (run_calls rejecting retry_engine ''goal'' used_agent)))
        (Evaluates ''b'', Some ''FAILURE_RETRY'') = 2
   \<and> count_list (map fst (take 8 (map outline (run_calls rejecting retry_engine ''goal'' used_agent))))
        (Executes ''b'') = 3
   \<and> \<not> count_list (map fst (take 8 (map outline (run_calls rejecting retry_engine ''goal'' used_agent))))
        (Executes ''b'') < 3"
  by (simp add: retry_run_outline)

text \<open>
  Claim C1, amended. When a step, first met with the retry counter at 0, is judged
  FAILURE_RETRY three times in a row, the first two passes go back to the loop test on
  the same step, and the third verdict is escalated. In all, the step is executed three
  times, each execution followed by its evaluation, and nothing is executed after the
  third evaluation: if the replan counter is below its bound the next request is the
  planner's, with the history and a failure context made of that step and its third
  result; otherwise the run returns the budget message without a further request.
\<close>

theorem retry_exhaustion:
  assumes guard: "step_index s < length (plan s)"
    and fresh: "retry_count s = 0"
    and v1: "verdict_at other eng q s = ''FAILURE_RETRY''"
    and v2: "verdict_at other eng q (pass other eng q s) = ''FAILURE_RETRY''"
    and v3: "verdict_at other eng q (pass other eng q (pass other eng q s)) = ''FAILURE_RETRY''"
  shows "cycle other eng q s = Continue (pass other eng q s)
    \<and> cycle other eng q (pass other eng q s) = Continue (pass other eng q (pass other eng q s))
    \<and> current_step_at (pass other eng q (pass other eng q s)) = current_step_at s
    \<and> escalated other eng q (pass other eng q (pass other eng q s))
    \<and> map kind_of (calls (pass other eng q (pass other eng q (pass other eng q s))))
        = map kind_of (calls s)
          @ [Executes (render (current_step_at s)), Evaluates (render (current_step_at s)),
             Executes (render (current_step_at s)), Evaluates (render (current_step_at s)),
             Executes (render (current_step_at s)), Evaluates (render (current_step_at s))]
          @ (if replan_count s < MAX_REPLANS then [Plans] else [])
    \<and> (replan_count s < MAX_REPLANS \<longrightarrow>
         fst (last (calls (pass other eng q (pass other eng q (pass other eng q s)))))
           = PlannerRequest q (planner_history_str (history s))
               (failure_info_of (current_step_at s)
                  (result_at eng q (pass other eng q (pass other eng q s)))))
    \<and> (\<not> replan_count s < MAX_REPLANS \<longrightarrow>
         cycle other eng q (pass other eng q (pass other eng q s))
           = Return Replan_budget_exhausted msg_replan_budget
               (pass other eng q (pass other eng q (pass other eng q s))))"
proof -
  define s1 where "s1 = s\<lparr>calls := after_evaluate other eng q s, retry_count := 1\<rparr>"
  define s2 where "s2 = s1\<lparr>calls := after_evaluate other eng q s1, retry_count := 2\<rparr>"
  have p1: "cycle other eng q s = Continue s1" "pass other eng q s = s1"
    using pass_retry [OF v1] fresh by (simp_all add: s1_def MAX_RETRIES_def)
  have r1: "retry_count s1 = 1" by (simp add: s1_def)
  have p2: "cycle other eng q s1 = Continue s2" "pass other eng q s1 = s2"
    using pass_retry [of other eng q s1] v2 p1(2) r1 by (simp_all add: s2_def MAX_RETRIES_def)
  have r2: "retry_count s2 = 2" by (simp add: s2_def)
  have v3': "verdict_at other eng q s2 = ''FAILURE_RETRY''"
    using v3 p1(2) p2(2) by simp
  have pr: "proceeds s" "proceeds s1" "proceeds s2"
    using verdict_proceeds [of other eng q s] verdict_proceeds [of other eng q s1]
      verdict_proceeds [of other eng q s2] v1 v2 v3' p1(2)
    by simp_all
  have e: "escalated other eng q s2"
    using v3' r2 by (simp add: escalated_def MAX_RETRIES_def)
  have same: "current_step_at s2 = current_step_at s" "current_step_at s1 = current_step_at s"
    "history s2 = history s" "replan_count s2 = replan_count s"
    by (simp_all add: s2_def s1_def current_step_at_def)
  have f: "formats (current_step_at s)" "list_all (\<lambda>(st', res'). formats st') (history s)"
    using pr(1) by (simp_all add: proceeds_def)
  have k1: "map kind_of (calls s1)
      = map kind_of (calls s)
        @ [Executes (render (current_step_at s)), Evaluates (render (current_step_at s))]"
    by (simp add: s1_def kinds_after_evaluate [OF pr(1)])
  have k2: "map kind_of (calls s2)
      = map kind_of (calls s)
        @ [Executes (render (current_step_at s)), Evaluates (render (current_step_at s)),
           Executes (render (current_step_at s)), Evaluates (render (current_step_at s))]"
    by (simp add: s2_def kinds_after_evaluate [OF pr(2)] same(2) k1)
  have c3: "cycle other eng q s2
      = replan other eng q (current_step_at s) (result_at eng q s2)
          (s2\<lparr>calls := after_evaluate other eng q s2, retry_count := retry_count s2 + 1\<rparr>)"
    using v3' r2 pr(3) by (simp add: cycle_eq same(1) MAX_RETRIES_def)
  have k3: "map kind_of (calls (pass other eng q s2))
      = map kind_of (calls s2)
        @ [Executes (render (current_step_at s)), Evaluates (render (current_step_at s))]
        @ (if replan_count s < MAX_REPLANS then [Plans] else [])"
    using f by (auto simp: pass_def c3 replan_eq kinds_after_evaluate [OF pr(3)] same)
  have f3: "fst (last (calls (pass other eng q s2)))
      = PlannerRequest q (planner_history_str (history s))
          (failure_info_of (current_step_at s) (result_at eng q s2))"
    if "replan_count s < MAX_REPLANS"
    using that f by (auto simp: pass_def c3 replan_eq same)
  have b3: "cycle other eng q s2
      = Return Replan_budget_exhausted msg_replan_budget (pass other eng q s2)"
    if "\<not> replan_count s < MAX_REPLANS"
    using that by (auto simp: pass_def c3 replan_eq same)
  show ?thesis
    using p1 p2 e same(1) k2 k3 f3 b3 by simp
qed

text \<open>
  The example run at the first execution of its second step.
\<close>

theorem retry_exhaustion_witness:
  "step_index retry_state < length (plan retry_state)
   \<and> retry_count retry_state = 0
   \<and> verdict_at rejecting retry_engine ''goal'' retry_state = ''FAILURE_RETRY''
   \<and> verdict_at rejecting retry_engine ''goal'' (pass rejecting retry_engine ''goal'' retry_state)
       = ''FAILURE_RETRY''
   \<and> verdict_at rejecting retry_engine ''goal''
       (pass rejecting retry_engine ''goal'' (pass rejecting retry_engine ''goal'' retry_state))
       = ''FAILURE_RETRY''
   \<and> map kind_of (calls (pass rejecting retry_engine ''goal'' exhausted_state))
       = [Plans, Executes ''a'', Evaluates ''a'',
          Executes ''b'', Evaluates ''b'', Executes ''b'', Evaluates ''b'',
          Executes ''b'', Evaluates ''b'', Plans]
   \<and> fst (last (calls (pass rejecting retry_engine ''goal'' exhausted_state)))
       = PlannerRequest ''goal'' (planner_history_str [(Str ''a'', ''r1'')])
           (failure_info_of (Str ''b'') ''z'')"
proof -
  have g: "step_index retry_state < length (plan retry_state)"
    and f: "retry_count retry_state = 0"
    by (simp_all add: retry_state_fields)
  have v3: "verdict_at rejecting retry_engine ''goal''
       (pass rejecting retry_engine ''goal'' (pass rejecting retry_engine ''goal'' retry_state))
       = ''FAILURE_RETRY''"
    using example_verdicts(4) by (simp add: exhausted_state_def)
  have k: "map kind_of (calls retry_state) = [Plans, Executes ''a'', Evaluates ''a'']"
    by (simp add: example_simps)
  have pe: "proceeds exhausted_state"
    using verdict_proceeds [of rejecting retry_engine "''goal''" exhausted_state]
    by (simp add: example_verdicts(4))
  have r: "result_at retry_engine ''goal'' exhausted_state = ''z''"
    by (simp add: result_at_eq pe exhausted_state_fields retry_engine_def scripted_def
        py_or_def)
  have c: "current_step_at retry_state = Str ''b''"
    by (simp add: current_step_at_def retry_state_fields)
  show ?thesis
    using retry_exhaustion [OF g f example_verdicts(2) example_verdicts(3) v3]
      g f example_verdicts(2) example_verdicts(3) v3 k r c
    by (simp add: exhausted_state_def [symmetric] retry_state_fields MAX_REPLANS_def)
qed

end
